theory Spec2Isabelle
  imports Complex_Main "HOL-Library.Product_Lexorder" "HOL-Library.Multiset"
    "HOL-Library.Extended_Nat"
begin

section \<open>Data model (app.py, lines 49-89)\<close>

text \<open>
  The three mapped classes become records. Every class has a column \<open>id\<close>; the record
  fields are \<open>mi_id\<close>, \<open>o_id\<close> and \<open>oi_id\<close>. The column \<open>note\<close> of an order is the
  field \<open>note_text\<close>.

  Prices are Python floats. The price type is a type variable \<open>'p\<close> of sort
  \<open>{zero,plus,times}\<close>: it has \<open>0\<close>, \<open>+\<close> and \<open>*\<close> and no algebraic law. A statement
  proved at this sort holds whatever the arithmetic rounds to. Where the code compares
  prices the sort has \<open>ord\<close> as well, again with no law. The conversion of an
  integer quantity to a float that Python inserts in \<open>item.price * qty\<close> is the
  field \<open>to_float\<close> of the environment below. Not-a-number values are outside the model.

  A \<open>datetime\<close> is the wall-clock tuple (year, month, day, hour, minute, second,
  microsecond) in the configured time zone, ordered lexicographically, which is how
  the stored timestamps compare.
\<close>

type_synonym date = "int \<times> int \<times> int"
type_synonym datetime = "int \<times> int \<times> int \<times> int \<times> int \<times> int \<times> int"

record 'p MenuItem =
  mi_id :: int
  name :: string
  price :: 'p
  category :: string
  description :: string
  image_url :: string
  is_available :: bool

record 'p Order =
  o_id :: int
  customer_name :: string
  table_no :: string
  contact :: string
  note_text :: string
  status :: string
  total_price :: 'p
  channel :: string
  source_ip :: string
  created_at :: datetime
  updated_at :: datetime

record 'p OrderItem =
  oi_id :: int
  order_id :: int
  item_id :: "int option"
  item_name :: string
  unit_price :: 'p
  quantity :: int

text \<open>The durable store: the three tables, each a list of rows in insertion order.\<close>

record 'p database =
  menu_items :: "'p MenuItem list"
  orders :: "'p Order list"
  order_items :: "'p OrderItem list"

text \<open>
  \<open>st.session_state\<close>: the key \<open>cart\<close> (a dict from menu id to quantity, in insertion
  order) and the key \<open>_admin_ok\<close>. \<open>None\<close> is a key that is not set.
\<close>

type_synonym cart = "(int \<times> int) list"

record session_state =
  cart :: "cart option"
  admin_ok :: "bool option"

text \<open>
  What a run of the script reads from outside: which persistence steps raise, the
  successive readings of \<open>datetime.now(TZ)\<close>, the request header
  \<open>X-Forwarded-For\<close>, and the int-to-float conversion.
\<close>

datatype db_step = Flush | Get int | Commit

text \<open>
  The exceptions that end a run: a persistence step that raises, and the number input
  that is given a value below its minimum.
\<close>

datatype error = StorageError db_step | ValueBelowMin

record 'p env =
  fails :: "db_step \<Rightarrow> bool"
  clock :: "nat \<Rightarrow> datetime"
  forwarded_for :: string
  to_float :: "int \<Rightarrow> 'p"

text \<open>
  The constants of the module: the administrator password, the default menu (name,
  price, category, description of each row; the literals are Chinese text), whether
  the import of \<open>qrcode\<close> succeeded, and the storage engine's \<open>ILIKE\<close>.
\<close>

record 'p config =
  ADMIN_PASSWORD :: string
  DEFAULT_MENU :: "(string \<times> 'p \<times> string \<times> string) list"
  qrcode_installed :: bool
  ilike :: "string \<Rightarrow> string \<Rightarrow> bool"

section \<open>Tool functions (lines 120-143)\<close>

text \<open>\<open>db.query(MenuItem).get(mid)\<close>: the row with that primary key, or \<open>None\<close>.\<close>

definition get_MenuItem :: "'p database \<Rightarrow> int \<Rightarrow> 'p MenuItem option" where
  "get_MenuItem db mid = find (\<lambda>m. mi_id m = mid) (menu_items db)"

text \<open>
  The next value of an integer primary key, as SQLite (the default \<open>DATABASE_URL\<close>)
  gives it to a row: one more than the largest key in the table, 1 in an empty table.
  The key of a deleted last row is given out again.
\<close>

definition next_id :: "int list \<Rightarrow> int" where
  "next_id ids = fold max ids 0 + 1"

definition ensure_cart :: "session_state \<Rightarrow> session_state" where
  "ensure_cart s = (case cart s of None \<Rightarrow> s\<lparr>cart := Some []\<rparr> | Some _ \<Rightarrow> s)"

definition the_cart :: "session_state \<Rightarrow> cart" where
  "the_cart s = (case cart s of None \<Rightarrow> [] | Some c \<Rightarrow> c)"

fun cart_total_loop :: "(int \<Rightarrow> 'p::{zero,plus,times}) \<Rightarrow> 'p database \<Rightarrow> cart \<Rightarrow> 'p \<Rightarrow> 'p" where
  "cart_total_loop fl db [] tot = tot"
| "cart_total_loop fl db ((mid, qty) # rest) tot =
     (case get_MenuItem db mid of
        None \<Rightarrow> cart_total_loop fl db rest tot
      | Some item \<Rightarrow>
          if is_available item then cart_total_loop fl db rest (tot + price item * fl qty)
          else cart_total_loop fl db rest tot)"

definition cart_total :: "(int \<Rightarrow> 'p::{zero,plus,times}) \<Rightarrow> 'p database \<Rightarrow> session_state \<Rightarrow> 'p" where
  "cart_total fl db s = cart_total_loop fl db (the_cart s) 0"

definition reset_cart :: "session_state \<Rightarrow> session_state" where
  "reset_cart s = s\<lparr>cart := Some []\<rparr>"

section \<open>Customer ordering page (lines 150-314)\<close>

text \<open>
  One run of \<open>page_order\<close> sees at most one pressed button. \<open>View\<close> is a run with none;
  \<open>Add_to_cart m qty\<close> is the button of the card of item \<open>m\<close> with \<open>qty\<close> in its number
  input; \<open>Clear_cart\<close> is the button under the cart table; \<open>Place_order\<close> is the form's
  submit button with the four text fields.
\<close>

datatype order_event =
    View
  | Add_to_cart int int
  | Clear_cart
  | Place_order string string string string

datatype 'p notice =
    Nothing
  | Qty_must_be_positive
  | Added string int
  | Rerun
  | Cart_is_empty
  | Order_placed int 'p
  | Orders_listed "'p Order list"
  | Name_required
  | Columns_required
  | Qr_library_missing
  | Qr_codes "(string \<times> string) list"
  | Password_required

text \<open>
  \<open>str.strip()\<close>. A string is the list of its UTF-8 bytes. Python removes from both
  ends the code points for which \<open>str.isspace()\<close> holds: U+0009 to U+000D, U+001C to
  U+001F, U+0020, U+0085, U+00A0, U+1680, U+2000 to U+200A, U+2028, U+2029, U+202F,
  U+205F and U+3000. Their encodings have one, two or three bytes.
\<close>

definition ws1 :: "char \<Rightarrow> bool" where
  "ws1 a = (a \<in> set [CHR 0x09, CHR 0x0A, CHR 0x0B, CHR 0x0C, CHR 0x0D,
                      CHR 0x1C, CHR 0x1D, CHR 0x1E, CHR 0x1F, CHR 0x20])"

definition ws2 :: "char \<Rightarrow> char \<Rightarrow> bool" where
  "ws2 a b = (a = CHR 0xC2 \<and> (b = CHR 0x85 \<or> b = CHR 0xA0))"

definition ws3 :: "char \<Rightarrow> char \<Rightarrow> char \<Rightarrow> bool" where
  "ws3 a b c =
     ((a = CHR 0xE1 \<and> b = CHR 0x9A \<and> c = CHR 0x80)
      \<or> (a = CHR 0xE2 \<and> b = CHR 0x80
           \<and> c \<in> set [CHR 0x80, CHR 0x81, CHR 0x82, CHR 0x83, CHR 0x84, CHR 0x85, CHR 0x86,
                        CHR 0x87, CHR 0x88, CHR 0x89, CHR 0x8A, CHR 0xA8, CHR 0xA9, CHR 0xAF])
      \<or> (a = CHR 0xE2 \<and> b = CHR 0x81 \<and> c = CHR 0x9F)
      \<or> (a = CHR 0xE3 \<and> b = CHR 0x80 \<and> c = CHR 0x80))"

fun lstrip_ws :: "string \<Rightarrow> string" where
  "lstrip_ws (a # b # c # s) =
     (if ws1 a then lstrip_ws (b # c # s)
      else if ws2 a b then lstrip_ws (c # s)
      else if ws3 a b c then lstrip_ws s
      else a # b # c # s)"
| "lstrip_ws [a, b] = (if ws1 a then lstrip_ws [b] else if ws2 a b then [] else [a, b])"
| "lstrip_ws [a] = (if ws1 a then [] else [a])"
| "lstrip_ws [] = []"

text \<open>The same from the right end, on the reversed string.\<close>

fun rstrip_ws_rev :: "string \<Rightarrow> string" where
  "rstrip_ws_rev (c # b # a # s) =
     (if ws1 c then rstrip_ws_rev (b # a # s)
      else if ws2 b c then rstrip_ws_rev (a # s)
      else if ws3 a b c then rstrip_ws_rev s
      else c # b # a # s)"
| "rstrip_ws_rev [c, b] = (if ws1 c then rstrip_ws_rev [b] else if ws2 b c then [] else [c, b])"
| "rstrip_ws_rev [c] = (if ws1 c then [] else [c])"
| "rstrip_ws_rev [] = []"

definition strip :: "string \<Rightarrow> string" where
  "strip s = rev (rstrip_ws_rev (rev (lstrip_ws s)))"

text \<open>
  The loop of lines 294-306 over the cart, with the running total and the order lines
  added so far. A query that raises ends the loop with the error.
\<close>

fun add_lines :: "'p::{zero,plus,times} env \<Rightarrow> 'p database \<Rightarrow> int \<Rightarrow> cart
    \<Rightarrow> 'p \<times> 'p OrderItem list \<Rightarrow> error + ('p \<times> 'p OrderItem list)" where
  "add_lines e db oid [] acc = Inr acc"
| "add_lines e db oid ((mid, qty) # rest) (tot, lines) =
     (if fails e (Get mid) then Inl (StorageError (Get mid))
      else case get_MenuItem db mid of
        None \<Rightarrow> add_lines e db oid rest (tot, lines)
      | Some item \<Rightarrow>
          add_lines e db oid rest
            (tot + price item * to_float e qty,
             lines @ [\<lparr>oi_id = next_id (map oi_id (order_items db)) + int (length lines),
                       order_id = oid,
                       item_id = Some (mi_id item),
                       item_name = name item,
                       unit_price = price item,
                       quantity = qty\<rparr>]))"

text \<open>
  Lines 274-312. The session's transaction is written to the durable store by
  \<open>db.commit()\<close> only, and the script has no exception handler: a step that raises leaves
  the store as it was and the error goes to the caller. The cart is reset after the
  commit.
\<close>

definition place_order :: "'p::{zero,plus,times} env \<Rightarrow> string \<Rightarrow> string \<Rightarrow> string \<Rightarrow> string
    \<Rightarrow> 'p database \<Rightarrow> session_state \<Rightarrow> (error + 'p notice) \<times> 'p database \<times> session_state" where
  "place_order e customer table contact_info note_in db s =
     (if the_cart s = [] then (Inr Cart_is_empty, db, s)
      else
        let order = \<lparr>o_id = next_id (map o_id (orders db)),
                     customer_name = strip customer,
                     table_no = strip table,
                     contact = strip contact_info,
                     note_text = strip note_in,
                     status = ''NEW'',
                     total_price = 0,
                     channel = ''onsite'',
                     source_ip = forwarded_for e,
                     created_at = clock e 0,
                     updated_at = clock e 1\<rparr>
        in if fails e Flush then (Inl (StorageError Flush), db, s)
           else case add_lines e db (o_id order) (the_cart s) (0, []) of
             Inl err \<Rightarrow> (Inl err, db, s)
           | Inr (tot, lines) \<Rightarrow>
               let order' = order\<lparr>total_price := tot, updated_at := clock e 2\<rparr>
               in if fails e Commit then (Inl (StorageError Commit), db, s)
                  else (Inr (Order_placed (o_id order') tot),
                        db\<lparr>orders := orders db @ [order'],
                           order_items := order_items db @ lines\<rparr>,
                        reset_cart s))"

text \<open>
  The rows of the cart table (lines 243-253): one per cart entry that resolves.
\<close>

fun resolve :: "'p database \<Rightarrow> cart \<Rightarrow> ('p MenuItem \<times> int) list" where
  "resolve db [] = []"
| "resolve db ((mid, qty) # rest) =
     (case get_MenuItem db mid of
        None \<Rightarrow> resolve db rest
      | Some item \<Rightarrow> (item, qty) # resolve db rest)"

definition cart_rows :: "'p database \<Rightarrow> session_state \<Rightarrow> ('p MenuItem \<times> int) list" where
  "cart_rows db s = resolve db (the_cart s)"

text \<open>
  The dict assignment \<open>cart[m.id] = qty\<close>: an existing key keeps its place and takes
  the new value, a new key goes to the end.
\<close>

fun cart_set :: "int \<Rightarrow> int \<Rightarrow> cart \<Rightarrow> cart" where
  "cart_set k v [] = [(k, v)]"
| "cart_set k v ((k', v') # rest) = (if k' = k then (k, v) # rest else (k', v') # cart_set k v rest)"

text \<open>
  The add button of an item exists only on the card of an item that is listed, and
  only available items are listed (line 187); the number input keeps \<open>qty\<close> between 0
  and 50 (lines 210 and 233). The clear button exists only under a cart table with rows.
\<close>

definition page_order :: "'p::{zero,plus,times} env \<Rightarrow> order_event
    \<Rightarrow> 'p database \<Rightarrow> session_state \<Rightarrow> (error + 'p notice) \<times> 'p database \<times> session_state" where
  "page_order e ev db s0 =
     (let s = ensure_cart s0 in
      case ev of
        View \<Rightarrow> (Inr Nothing, db, s)
      | Add_to_cart m qty \<Rightarrow>
          (case get_MenuItem db m of
             None \<Rightarrow> (Inr Nothing, db, s)
           | Some item \<Rightarrow>
               if \<not> is_available item \<or> qty < 0 \<or> 50 < qty then (Inr Nothing, db, s)
               else if qty \<le> 0 then (Inr Qty_must_be_positive, db, s)
               else (Inr (Added (name item) qty), db, s\<lparr>cart := Some (cart_set m qty (the_cart s))\<rparr>))
      | Clear_cart \<Rightarrow>
          if cart_rows db s = [] then (Inr Nothing, db, s)
          else (Inr Rerun, db, reset_cart s)
      | Place_order customer table contact_info note_in \<Rightarrow>
          place_order e customer table contact_info note_in db s)"

section \<open>Order administration page (lines 321-417)\<close>

record filters =
  status_sel :: "string list"
  d_from :: date
  d_to :: date
  keyword :: string

definition statuses :: "string list" where
  "statuses = [''NEW'', ''CONFIRMED'', ''PREPARING'', ''SERVED'', ''CANCELLED'']"

text \<open>
  \<open>datetime(d.year, d.month, d.day, 0, 0, tzinfo=TZ)\<close> and
  \<open>datetime(d.year, d.month, d.day, 23, 59, 59, tzinfo=TZ)\<close>: the microsecond of both is 0.
\<close>

definition day_first :: "date \<Rightarrow> datetime" where
  "day_first d = (case d of (y, m, dd) \<Rightarrow> (y, m, dd, 0, 0, 0, 0))"

definition day_last :: "date \<Rightarrow> datetime" where
  "day_last d = (case d of (y, m, dd) \<Rightarrow> (y, m, dd, 23, 59, 59, 0))"

text \<open>
  \<open>order_by(Order.created_at.desc())\<close>: descending by creation time, orders of equal
  creation time in the order of the table.
\<close>

definition order_by_created_at_desc :: "'p Order list \<Rightarrow> 'p Order list" where
  "order_by_created_at_desc xs = rev (sort_key created_at (rev xs))"

text \<open>
  The query of lines 337-347. The SQL operator \<open>ILIKE\<close> belongs to the storage engine
  and is the parameter \<open>like_op\<close> (value first, pattern second).
\<close>

definition orders_query :: "(string \<Rightarrow> string \<Rightarrow> bool) \<Rightarrow> filters \<Rightarrow> 'p database \<Rightarrow> 'p Order list" where
  "orders_query like_op f db =
     (let q0 = orders db;
          q1 = filter (\<lambda>od. day_first (d_from f) \<le> created_at od) q0;
          q2 = filter (\<lambda>od. created_at od \<le> day_last (d_to f)) q1;
          q3 = (if status_sel f \<noteq> [] then filter (\<lambda>od. status od \<in> set (status_sel f)) q2 else q2);
          q4 = (if keyword f \<noteq> []
                then let like = ''%'' @ keyword f @ ''%''
                     in filter (\<lambda>od. like_op (customer_name od) like \<or> like_op (table_no od) like
                                   \<or> like_op (contact od) like) q3
                else q3)
      in order_by_created_at_desc q4)"

datatype admin_event =
    Show_orders
  | Save_status int string
  | Delete_order int

text \<open>
  The order picked in the select box is one of the listed orders, the new status one of
  the five. Deleting an order deletes its lines (\<open>cascade="all, delete-orphan"\<close>).
\<close>

definition page_orders_admin :: "(string \<Rightarrow> string \<Rightarrow> bool) \<Rightarrow> 'p env \<Rightarrow> filters \<Rightarrow> admin_event
    \<Rightarrow> 'p database \<Rightarrow> 'p notice \<times> 'p database" where
  "page_orders_admin like_op e f ev db =
     (let listed = orders_query like_op f db in
      case ev of
        Show_orders \<Rightarrow> (Orders_listed listed, db)
      | Save_status oid new_status \<Rightarrow>
          if oid \<in> set (map o_id listed) \<and> new_status \<in> set statuses
          then (Rerun,
                db\<lparr>orders := map (\<lambda>od. if o_id od = oid
                                       then od\<lparr>status := new_status, updated_at := clock e 0\<rparr>
                                       else od) (orders db)\<rparr>)
          else (Orders_listed listed, db)
      | Delete_order oid \<Rightarrow>
          if oid \<in> set (map o_id listed)
          then (Rerun,
                db\<lparr>orders := filter (\<lambda>od. o_id od \<noteq> oid) (orders db),
                   order_items := filter (\<lambda>l. order_id l \<noteq> oid) (order_items db)\<rparr>)
          else (Orders_listed listed, db))"

section \<open>Menu administration page (lines 424-533)\<close>

record 'p csv_row =
  r_name :: string
  r_price :: 'p
  r_category :: string
  r_description :: string
  r_image_url :: string
  r_is_available :: bool

text \<open>
  The file held by the uploader, as \<open>pd.read_csv\<close> parses it: the column names and the
  rows, each row with the value or the default of every column that lines 518-525 read.
\<close>

type_synonym 'p upload = "string list \<times> 'p csv_row list"

text \<open>
  The inputs of one run of the page. At most one button is pressed in a run, and a
  handler that ends in \<open>st.rerun()\<close> ends the run there.
  \<^item> \<open>Show_menu sel up\<close>: no button; the select box of line 467 holds the row with key
    \<open>sel\<close> and the uploader holds \<open>up\<close>.
  \<^item> \<open>Add_item n c p d img avail sel up\<close>: the button of the add form with its fields;
    \<open>sel\<close> and \<open>up\<close> as before, for the case that the run goes on past the form.
  \<^item> \<open>Save_item mid n c p d img avail\<close> and \<open>Delete_item mid\<close>: the two buttons of the
    edit form of the row with key \<open>mid\<close> that the select box holds.
  The uploader keeps its file from run to run: every run that reaches line 507 with a
  file in it imports the file, also the run that \<open>st.rerun()\<close> starts after an import.
\<close>

datatype 'p menu_event =
    Show_menu int "'p upload option"
  | Add_item string string 'p string string bool int "'p upload option"
  | Save_item int string string 'p string string bool
  | Delete_item int

text \<open>\<open>db.add(MenuItem(...))\<close> followed by the flush that gives the row its key.\<close>

definition add_MenuItem :: "string \<Rightarrow> 'p \<Rightarrow> string \<Rightarrow> string \<Rightarrow> string \<Rightarrow> bool
    \<Rightarrow> 'p database \<Rightarrow> 'p database" where
  "add_MenuItem n p c d img avail db =
     db\<lparr>menu_items := menu_items db @
          [\<lparr>mi_id = next_id (map mi_id (menu_items db)), name = n, price = p, category = c,
            description = d, image_url = img, is_available = avail\<rparr>]\<rparr>"

text \<open>
  \<open>db.delete(selected); db.commit()\<close> (lines 495-497). What the delete does to the
  order lines is the work of the object-relational mapper, which is not part of the
  source: the relationship \<open>MenuItem.order_items\<close> (line 59) is declared with the default
  cascade, under which the mapper's unit of work sets the nullable foreign key
  \<open>item_id\<close> (line 83) of the referring order lines to NULL and deletes the menu row
  only.
\<close>

definition delete_MenuItem :: "int \<Rightarrow> 'p database \<Rightarrow> 'p database" where
  "delete_MenuItem mid db =
     db\<lparr>menu_items := filter (\<lambda>m. mi_id m \<noteq> mid) (menu_items db),
        order_items := map (\<lambda>l. if item_id l = Some mid then l\<lparr>item_id := None\<rparr> else l)
                           (order_items db)\<rparr>"

text \<open>
  The default category (lines 447 and 457) is a two-character Chinese literal, here its
  UTF-8 bytes.
\<close>

definition default_category :: string where
  "default_category = [CHR 0xE4, CHR 0xB8, CHR 0xBB, CHR 0xE9, CHR 0xA3, CHR 0x9F]"

definition lower_ascii :: "string \<Rightarrow> string" where
  "lower_ascii s =
     map (\<lambda>c. let n = (of_char c :: nat) in if 65 \<le> n \<and> n \<le> 90 then char_of (n + 32) else c) s"

text \<open>
  Lines 506-531: the import of the file in the uploader. The import takes
  \<open>float(r.get("price"))\<close> as it comes, with no lower bound (line 520).
\<close>

definition import_section :: "'p upload option \<Rightarrow> 'p database \<Rightarrow> (error + 'p notice) \<times> 'p database" where
  "import_section up db =
     (case up of
        None \<Rightarrow> (Inr Nothing, db)
      | Some (columns, rows) \<Rightarrow>
          if \<not> set [''name'', ''price'', ''category''] \<subseteq> set (map lower_ascii columns)
          then (Inr Columns_required, db)
          else (Inr Rerun,
                fold (\<lambda>r. add_MenuItem (strip (r_name r)) (r_price r) (r_category r)
                             (r_description r) (r_image_url r) (r_is_available r)) rows db))"

text \<open>
  Lines 465-501 in a run without a pressed edit button, then the import. The edit form
  of the selected row has the price input
  \<open>st.number_input(..., min_value=0.0, value=float(selected.price))\<close> (line 472), which
  raises for a value below the minimum: the run of the page ends there for a selected
  row of negative price.
\<close>

definition rest_of_page :: "int \<Rightarrow> 'p::{zero,ord} upload option \<Rightarrow> 'p database
    \<Rightarrow> (error + 'p notice) \<times> 'p database" where
  "rest_of_page sel up db =
     (case get_MenuItem db sel of
        None \<Rightarrow> import_section up db
      | Some row \<Rightarrow>
          if price row < 0 then (Inl ValueBelowMin, db) else import_section up db)"

text \<open>
  The page. The price inputs of the two forms have \<open>min_value=0.0\<close> and hold no value
  below it: such an input leaves the store as it is.
\<close>

definition page_menu_admin :: "'p::{zero,ord} menu_event \<Rightarrow> 'p database
    \<Rightarrow> (error + 'p notice) \<times> 'p database" where
  "page_menu_admin ev db =
     (case ev of
        Show_menu sel up \<Rightarrow> rest_of_page sel up db
      | Add_item n c p d img avail sel up \<Rightarrow>
          if n = [] then
            (case rest_of_page sel up db of
               (Inr Nothing, db') \<Rightarrow> (Inr Name_required, db')
             | res \<Rightarrow> res)
          else if p < 0 then (Inr Nothing, db)
          else (Inr Rerun, add_MenuItem n p (if c = [] then default_category else c) d img avail db)
      | Save_item mid n c p d img avail \<Rightarrow>
          (case get_MenuItem db mid of
             None \<Rightarrow> (Inr Nothing, db)
           | Some row \<Rightarrow>
               if price row < 0 then (Inl ValueBelowMin, db)
               else if p < 0 then (Inr Nothing, db)
               else (Inr Rerun,
                     db\<lparr>menu_items := map (\<lambda>m. if mi_id m = mid
                                                then m\<lparr>name := n, category := c, price := p,
                                                       description := d, image_url := img,
                                                       is_available := avail\<rparr>
                                                else m) (menu_items db)\<rparr>))
      | Delete_item mid \<Rightarrow>
          (case get_MenuItem db mid of
             None \<Rightarrow> (Inr Nothing, db)
           | Some row \<Rightarrow>
               if price row < 0 then (Inl ValueBelowMin, db)
               else (Inr Rerun, delete_MenuItem mid db)))"

section \<open>Administrator gate (lines 540-547)\<close>

text \<open>
  \<open>pw\<close> is the text of the password input and \<open>ok\<close> the state of the button in this run.
  The result is the returned boolean and the session state after the call.
\<close>

definition require_admin :: "'p config \<Rightarrow> string \<Rightarrow> bool \<Rightarrow> session_state \<Rightarrow> bool \<times> session_state" where
  "require_admin cfg pw ok s =
     (let s' = (if ok then s\<lparr>admin_ok := Some (pw = ADMIN_PASSWORD cfg)\<rparr> else s)
      in (case admin_ok s' of None \<Rightarrow> False | Some b \<Rightarrow> b, s'))"

section \<open>Table links (lines 554-609)\<close>

text \<open>\<open>s.rstrip(c)\<close> for a single character \<open>c\<close>.\<close>

definition rstrip :: "char \<Rightarrow> string \<Rightarrow> string" where
  "rstrip c s = rev (dropWhile (\<lambda>x. x = c) (rev s))"

text \<open>The expression of lines 574 and 603.\<close>

definition table_url :: "string \<Rightarrow> string \<Rightarrow> string \<Rightarrow> bool \<Rightarrow> string" where
  "table_url base_url param_key tid mobile_mode =
     rstrip (CHR ''/'') base_url @ ''/?'' @ param_key @ ''='' @ tid
       @ (if mobile_mode then ''&mode=list'' else [])"

text \<open>The decimal text of an integer, as an f-string renders it.\<close>

definition digit_char :: "nat \<Rightarrow> char" where
  "digit_char d = ''0123456789'' ! d"

fun str_nat :: "nat \<Rightarrow> string" where
  "str_nat n = (if n < 10 then [digit_char n] else str_nat (n div 10) @ [digit_char (n mod 10)])"

definition str_int :: "int \<Rightarrow> string" where
  "str_int i = (if i < 0 then CHR ''-'' # str_nat (nat (- i)) else str_nat (nat i))"

text \<open>\<open>range(int(start_no), int(start_no) + int(count))\<close>.\<close>

definition range_py :: "int \<Rightarrow> int \<Rightarrow> int list" where
  "range_py a b = [a..b - 1]"

datatype qr_event =
    Show_qr
  | Single string
  | Batch string int int

text \<open>
  The result pairs the file name of each image with the link it encodes; the image
  itself is the work of the external encoder.
\<close>

definition page_qr :: "'p config \<Rightarrow> string \<Rightarrow> string \<Rightarrow> bool \<Rightarrow> qr_event \<Rightarrow> 'p notice" where
  "page_qr cfg base_url param_key mobile_mode ev =
     (if \<not> qrcode_installed cfg then Qr_library_missing
      else case ev of
        Show_qr \<Rightarrow> Nothing
      | Single single_table \<Rightarrow>
          Qr_codes [(''qr_'' @ single_table @ ''.png'', table_url base_url param_key single_table mobile_mode)]
      | Batch prefix start_no count_no \<Rightarrow>
          Qr_codes (map (\<lambda>i. let tid = prefix @ str_int i
                              in (''qr_'' @ tid @ ''.png'', table_url base_url param_key tid mobile_mode))
                        (range_py start_no (start_no + count_no))))"

section \<open>Entry point (lines 616-637)\<close>

definition init_db :: "'p config \<Rightarrow> 'p database \<Rightarrow> 'p database" where
  "init_db cfg db =
     (if length (menu_items db) = 0
      then fold (\<lambda>(n, p, c, d). add_MenuItem n p c d [] True) (DEFAULT_MENU cfg) db
      else db)"

datatype 'p page_request =
    Customer order_event
  | Orders_admin filters admin_event
  | Menu_admin "'p menu_event"
  | Qr_admin string string bool qr_event

text \<open>
  A run of the script: the page picked in the side bar with its inputs, and the
  password input and button of the side bar, which only the back-office pages read.
\<close>

record 'p request =
  gate_pw :: string
  gate_ok :: bool
  page_req :: "'p page_request"

definition main :: "'p::{zero,plus,times,ord} config \<Rightarrow> 'p env \<Rightarrow> 'p request
    \<Rightarrow> 'p database \<Rightarrow> session_state \<Rightarrow> (error + 'p notice) \<times> 'p database \<times> session_state" where
  "main cfg e req db0 s =
     (let db = init_db cfg db0 in
      case page_req req of
        Customer ev \<Rightarrow> page_order e ev db s
      | Orders_admin f ev \<Rightarrow>
          (case require_admin cfg (gate_pw req) (gate_ok req) s of
             (ok, s') \<Rightarrow>
               if \<not> ok then (Inr Password_required, db, s')
               else (case page_orders_admin (ilike cfg) e f ev db of
                       (n, db') \<Rightarrow> (Inr n, db', s')))
      | Menu_admin ev \<Rightarrow>
          (case require_admin cfg (gate_pw req) (gate_ok req) s of
             (ok, s') \<Rightarrow>
               if \<not> ok then (Inr Password_required, db, s')
               else (case page_menu_admin ev db of
                       (r, db') \<Rightarrow> (r, db', s')))
      | Qr_admin base_url param_key mobile_mode ev \<Rightarrow>
          (case require_admin cfg (gate_pw req) (gate_ok req) s of
             (ok, s') \<Rightarrow>
               if \<not> ok then (Inr Password_required, db, s')
               else (Inr (page_qr cfg base_url param_key mobile_mode ev), db, s')))"

text \<open>
  The runs of one browser session, in order: the session state of a run is the one the
  run before left, whether that run ended with an error or not.
\<close>

fun run_session :: "'p::{zero,plus,times,ord} config \<Rightarrow> ('p env \<times> 'p request) list
    \<Rightarrow> 'p database \<Rightarrow> session_state \<Rightarrow> 'p database \<times> session_state" where
  "run_session cfg [] db s = (db, s)"
| "run_session cfg ((e, req) # rest) db s =
     (case main cfg e req db s of (_, db', s') \<Rightarrow> run_session cfg rest db' s')"

section \<open>Notions used in the statements\<close>

text \<open>
  The sum of unit price times quantity over a list of order lines, added from left to
  right starting at zero, as the loop of the submission adds them.
\<close>

definition lines_sum :: "(int \<Rightarrow> 'p::{zero,plus,times}) \<Rightarrow> 'p OrderItem list \<Rightarrow> 'p" where
  "lines_sum fl ls = foldl (\<lambda>a l. a + unit_price l * fl (quantity l)) 0 ls"

text \<open>The rows that a step appended to the two order tables.\<close>

definition created_orders :: "'p database \<Rightarrow> 'p database \<Rightarrow> 'p Order list" where
  "created_orders db db' = drop (length (orders db)) (orders db')"

definition created_lines :: "'p database \<Rightarrow> 'p database \<Rightarrow> 'p OrderItem list" where
  "created_lines db db' = drop (length (order_items db)) (order_items db')"

text \<open>
  The persistence steps of a submission, in the order of lines 291-309: the flush of
  the header, one query per cart entry, the commit. An empty cart is turned away before
  the first of them.
\<close>

definition submission_steps :: "cart \<Rightarrow> db_step list" where
  "submission_steps c = (if c = [] then [] else Flush # map (\<lambda>(mid, qty). Get mid) c @ [Commit])"

section \<open>Example data\<close>

text \<open>
  A small store at real-valued prices: two available entries, one that was taken off
  the menu, one imported with a negative price and not available, and no order yet.
\<close>

definition ex_menu :: "real MenuItem list" where
  "ex_menu =
     [\<lparr>mi_id = 1, name = ''EntryA'', price = 10, category = ''Food'', description = [],
       image_url = [], is_available = True\<rparr>,
      \<lparr>mi_id = 2, name = ''EntryB'', price = 5, category = ''Food'', description = [],
       image_url = [], is_available = True\<rparr>,
      \<lparr>mi_id = 3, name = ''Cake'', price = 5, category = ''Food'', description = [],
       image_url = [], is_available = False\<rparr>,
      \<lparr>mi_id = 4, name = ''Voucher'', price = - 5, category = ''Other'', description = [],
       image_url = [], is_available = False\<rparr>]"

definition ex_db :: "real database" where
  "ex_db = \<lparr>menu_items = ex_menu, orders = [], order_items = []\<rparr>"

definition ex_env :: "real env" where
  "ex_env = \<lparr>fails = (\<lambda>st. False), clock = (\<lambda>k. (2024, 1, 1, 12, 0, 0, int k)),
             forwarded_for = [], to_float = of_int\<rparr>"

definition ex_env_commit_fails :: "real env" where
  "ex_env_commit_fails = ex_env\<lparr>fails := (\<lambda>st. st = Commit)\<rparr>"

definition ex_session :: "cart \<Rightarrow> session_state" where
  "ex_session c = \<lparr>cart = Some c, admin_ok = None\<rparr>"

definition ex_submit :: order_event where
  "ex_submit = Place_order ''Ann'' ''A1'' [] []"

text \<open>
  Six orders around the first of January 2024, among them one of each status, one at
  the first instant of the day, one at 23:59:59 sharp, one half a second later, one at
  the first instant of the next day and one in the last microsecond of the day before.
\<close>

definition ex_order :: "int \<Rightarrow> string \<Rightarrow> datetime \<Rightarrow> real Order" where
  "ex_order i st ts =
     \<lparr>o_id = i, customer_name = ''Ann'', table_no = ''A1'', contact = [], note_text = [],
      status = st, total_price = 25, channel = ''onsite'', source_ip = [],
      created_at = ts, updated_at = ts\<rparr>"

definition ex_orders_db :: "real database" where
  "ex_orders_db =
     \<lparr>menu_items = ex_menu,
      orders = [ex_order 1 ''NEW'' (2024, 1, 1, 0, 0, 0, 0),
                ex_order 2 ''CONFIRMED'' (2024, 1, 1, 9, 30, 0, 0),
                ex_order 3 ''PREPARING'' (2024, 1, 1, 23, 59, 59, 0),
                ex_order 4 ''SERVED'' (2024, 1, 2, 0, 0, 0, 0),
                ex_order 5 ''CANCELLED'' (2023, 12, 31, 23, 59, 59, 999999),
                ex_order 6 ''NEW'' (2024, 1, 1, 23, 59, 59, 500000)],
      order_items = []\<rparr>"

definition ex_filters :: "string list \<Rightarrow> date \<Rightarrow> date \<Rightarrow> filters" where
  "ex_filters sel a b = \<lparr>status_sel = sel, d_from = a, d_to = b, keyword = []\<rparr>"

definition ex_like :: "string \<Rightarrow> string \<Rightarrow> bool" where
  "ex_like v pat = False"

text \<open>
  A configuration with the default password, and the store after the order of two
  EntryA and one EntryB has been placed.
\<close>

definition ex_cfg :: "real config" where
  "ex_cfg = \<lparr>ADMIN_PASSWORD = ''changeme'', DEFAULT_MENU = [], qrcode_installed = True,
             ilike = ex_like\<rparr>"

definition ex_db_ordered :: "real database" where
  "ex_db_ordered =
     \<lparr>menu_items = ex_menu,
      orders = [ex_order 1 ''NEW'' (2024, 1, 1, 12, 0, 0, 0)],
      order_items = [\<lparr>oi_id = 1, order_id = 1, item_id = Some 1, item_name = ''EntryA'',
                       unit_price = 10, quantity = 2\<rparr>,
                     \<lparr>oi_id = 2, order_id = 1, item_id = Some 2, item_name = ''EntryB'',
                       unit_price = 5, quantity = 1\<rparr>]\<rparr>"

definition ex_request :: "bool \<Rightarrow> string \<Rightarrow> real page_request \<Rightarrow> real env \<times> real request" where
  "ex_request pressed pw pg = (ex_env, \<lparr>gate_pw = pw, gate_ok = pressed, page_req = pg\<rparr>)"

text \<open>The link list of a notice.\<close>

fun qr_codes_of :: "'p notice \<Rightarrow> (string \<times> string) list" where
  "qr_codes_of (Qr_codes xs) = xs"
| "qr_codes_of _ = []"

text \<open>
  The store before the third and fourth menu rows were replaced, and the runs of one
  session that put both replaced rows in the cart: two items are put in the cart, the
  administrator logs in and deletes them, and an uploaded file is imported, in the run
  that the upload starts and again in the run that \<open>st.rerun()\<close> starts, before the
  customer page is picked. The rows of the first import take the freed keys.
\<close>

definition ex_db_before :: "real database" where
  "ex_db_before =
     \<lparr>menu_items =
        [\<lparr>mi_id = 1, name = ''EntryA'', price = 10, category = ''Food'', description = [],
          image_url = [], is_available = True\<rparr>,
         \<lparr>mi_id = 2, name = ''EntryB'', price = 5, category = ''Food'', description = [],
          image_url = [], is_available = True\<rparr>,
         \<lparr>mi_id = 3, name = ''Soup'', price = 4, category = ''Food'', description = [],
          image_url = [], is_available = True\<rparr>,
         \<lparr>mi_id = 4, name = ''Salad'', price = 6, category = ''Food'', description = [],
          image_url = [], is_available = True\<rparr>],
      orders = [], order_items = []\<rparr>"

definition ex_file :: "real upload" where
  "ex_file =
     ([''name'', ''price'', ''category'', ''is_available''],
      [\<lparr>r_name = ''Cake'', r_price = 5, r_category = ''Food'', r_description = [],
        r_image_url = [], r_is_available = False\<rparr>,
       \<lparr>r_name = ''Voucher'', r_price = - 5, r_category = ''Other'', r_description = [],
        r_image_url = [], r_is_available = False\<rparr>])"

definition ex_requests :: "(real env \<times> real request) list" where
  "ex_requests =
     [ex_request False [] (Customer (Add_to_cart 3 1)),
      ex_request False [] (Customer (Add_to_cart 4 1)),
      ex_request True ''changeme'' (Menu_admin (Delete_item 4)),
      ex_request False [] (Menu_admin (Show_menu 1 None)),
      ex_request False [] (Menu_admin (Delete_item 3)),
      ex_request False [] (Menu_admin (Show_menu 1 None)),
      ex_request False [] (Menu_admin (Show_menu 1 (Some ex_file))),
      ex_request False [] (Menu_admin (Show_menu 1 (Some ex_file))),
      ex_request False [] (Customer View)]"

definition ex_db_reached :: "real database" where
  "ex_db_reached =
     \<lparr>menu_items = ex_menu @
        [\<lparr>mi_id = 5, name = ''Cake'', price = 5, category = ''Food'', description = [],
          image_url = [], is_available = False\<rparr>,
         \<lparr>mi_id = 6, name = ''Voucher'', price = - 5, category = ''Other'', description = [],
          image_url = [], is_available = False\<rparr>],
      orders = [], order_items = []\<rparr>"

text \<open>
  Two orders in the last second of the fifth of March 2024, one at its start and one
  half a second later.
\<close>

definition ex_late_db :: "real database" where
  "ex_late_db =
     \<lparr>menu_items = ex_menu,
      orders = [ex_order 1 ''NEW'' (2024, 3, 5, 23, 59, 59, 500000),
                ex_order 2 ''NEW'' (2024, 3, 5, 23, 59, 59, 0)],
      order_items = []\<rparr>"

text \<open>
  A store at a price arithmetic with an absorbing value, as floating point has in its
  infinity and, for small amounts, in its large values: the extended natural numbers.
  The available row has the absorbing price, the row that is not available the price 1.
\<close>

definition ex_db_absorbing :: "enat database" where
  "ex_db_absorbing =
     \<lparr>menu_items =
        [\<lparr>mi_id = 1, name = ''Big'', price = \<infinity>, category = ''Food'', description = [],
          image_url = [], is_available = True\<rparr>,
         \<lparr>mi_id = 2, name = ''Cake'', price = 1, category = ''Food'', description = [],
          image_url = [], is_available = False\<rparr>],
      orders = [], order_items = []\<rparr>"

definition ex_env_absorbing :: "enat env" where
  "ex_env_absorbing =
     \<lparr>fails = (\<lambda>st. False), clock = (\<lambda>k. (2024, 1, 1, 12, 0, 0, int k)),
      forwarded_for = [], to_float = (\<lambda>q. enat (nat q))\<rparr>"

section \<open>Lemmas on the submission loop\<close>

lemma the_cart_ensure [simp]: "the_cart (ensure_cart s) = the_cart s"
  by (simp add: the_cart_def ensure_cart_def split: option.splits)


lemma add_lines_shape:
  "add_lines e db oid c (t, ls) = Inr (t', ls') \<Longrightarrow>
   \<exists>new. ls' = ls @ new
       \<and> t' = foldl (\<lambda>a l. a + unit_price l * to_float e (quantity l)) t new
       \<and> (\<forall>l\<in>set new. order_id l = oid)
       \<and> map (\<lambda>l. (item_id l, item_name l, unit_price l, quantity l)) new
           = map (\<lambda>(item, q). (Some (mi_id item), name item, price item, q)) (resolve db c)"
proof (induction c arbitrary: t ls)
  case Nil
  then show ?case by simp
next
  case (Cons a c)
  obtain mid qty where a: "a = (mid, qty)" by (cases a)
  show ?case
  proof (cases "get_MenuItem db mid")
    case None
    with Cons.prems a have "add_lines e db oid c (t, ls) = Inr (t', ls')"
      by (simp split: if_splits)
    from Cons.IH[OF this] None a show ?thesis by simp
  next
    case (Some item)
    let ?l = "\<lparr>oi_id = next_id (map oi_id (order_items db)) + int (length ls),
               order_id = oid, item_id = Some (mi_id item), item_name = name item,
               unit_price = price item, quantity = qty\<rparr>"
    from Cons.prems a Some
    have "add_lines e db oid c (t + price item * to_float e qty, ls @ [?l]) = Inr (t', ls')"
      by (simp split: if_splits)
    from Cons.IH[OF this] obtain new where
      n: "ls' = (ls @ [?l]) @ new"
         "t' = foldl (\<lambda>a l. a + unit_price l * to_float e (quantity l)) (t + price item * to_float e qty) new"
         "\<forall>l\<in>set new. order_id l = oid"
         "map (\<lambda>l. (item_id l, item_name l, unit_price l, quantity l)) new
           = map (\<lambda>(item, q). (Some (mi_id item), name item, price item, q)) (resolve db c)"
      by blast
    show ?thesis
      by (rule exI[of _ "?l # new"]) (use n a Some in simp)
  qed
qed

lemma add_lines_ok:
  "\<forall>(mid, qty)\<in>set c. \<not> fails e (Get mid) \<Longrightarrow> \<exists>r. add_lines e db oid c acc = Inr r"
proof (induction c arbitrary: acc)
  case Nil
  then show ?case by simp
next
  case (Cons a c)
  obtain mid qty where a: "a = (mid, qty)" by (cases a)
  obtain t ls where acc: "acc = (t, ls)" by (cases acc)
  from Cons.prems have "\<forall>(mid, qty)\<in>set c. \<not> fails e (Get mid)" by simp
  from Cons.IH[OF this] Cons.prems a acc show ?case
    by (cases "get_MenuItem db mid") simp_all
qed

lemma add_lines_fail:
  "\<exists>(mid, qty)\<in>set c. fails e (Get mid) \<Longrightarrow>
   \<exists>st. add_lines e db oid c acc = Inl (StorageError st) \<and> fails e st \<and> st \<in> set (map (\<lambda>(mid, qty). Get mid) c)"
proof (induction c arbitrary: acc)
  case Nil
  then show ?case by simp
next
  case (Cons a c)
  obtain mid qty where a: "a = (mid, qty)" by (cases a)
  obtain t ls where acc: "acc = (t, ls)" by (cases acc)
  show ?case
  proof (cases "fails e (Get mid)")
    case True
    with a acc show ?thesis by auto
  next
    case False
    with Cons.prems a have "\<exists>(mid, qty)\<in>set c. fails e (Get mid)" by auto
    note ih = Cons.IH[OF this]
    show ?thesis
    proof (cases "get_MenuItem db mid")
      case None
      from ih[of "(t, ls)"] obtain st where
        "add_lines e db oid c (t, ls) = Inl (StorageError st)" "fails e st"
        "st \<in> set (map (\<lambda>(mid, qty). Get mid) c)" by blast
      with False a acc None show ?thesis by auto
    next
      case (Some item)
      let ?acc = "(t + price item * to_float e qty,
             ls @ [\<lparr>oi_id = next_id (map oi_id (order_items db)) + int (length ls),
                       order_id = oid, item_id = Some (mi_id item), item_name = name item,
                       unit_price = price item, quantity = qty\<rparr>])"
      from ih[of ?acc] obtain st where
        "add_lines e db oid c ?acc = Inl (StorageError st)" "fails e st"
        "st \<in> set (map (\<lambda>(mid, qty). Get mid) c)" by blast
      with False a acc Some show ?thesis by auto
    qed
  qed
qed


lemma fold_max_bounds: "a \<le> fold max ids (a::int) \<and> (\<forall>x\<in>set ids. x \<le> fold max ids a)"
proof (induction ids arbitrary: a)
  case Nil
  then show ?case by simp
next
  case (Cons i ids)
  from Cons.IH[of "max i a"] show ?case by auto
qed

lemma next_id_fresh: "next_id ids \<notin> set ids"
proof
  assume "next_id ids \<in> set ids"
  with fold_max_bounds[of 0 ids] have "next_id ids \<le> fold max ids 0" by blast
  then show False by (simp add: next_id_def)
qed

lemma resolve_sound: "(item, q) \<in> set (resolve db c) \<Longrightarrow> (mi_id item, q) \<in> set c \<and> get_MenuItem db (mi_id item) = Some item"
proof (induction c)
  case Nil
  then show ?case by simp
next
  case (Cons a c)
  obtain mid qty where a: "a = (mid, qty)" by (cases a)
  show ?case
  proof (cases "get_MenuItem db mid")
    case None
    with Cons a show ?thesis by auto
  next
    case (Some it)
    then have "mi_id it = mid"
      by (auto simp: get_MenuItem_def find_Some_iff)
    with Cons a Some show ?thesis by auto
  qed
qed

lemma resolve_complete: "(mid, q) \<in> set c \<Longrightarrow> get_MenuItem db mid = Some item \<Longrightarrow> (item, q) \<in> set (resolve db c)"
proof (induction c)
  case Nil
  then show ?case by simp
next
  case (Cons a c)
  obtain m' q' where a: "a = (m', q')" by (cases a)
  with Cons show ?case by (cases "get_MenuItem db m'") auto
qed

lemma place_order_success:
  fixes e :: "'p::{zero,plus,times} env"
  assumes ne: "the_cart s \<noteq> []"
    and ok: "\<forall>st\<in>set (submission_steps (the_cart s)). \<not> fails e st"
  shows "\<exists>tot new.
      place_order e c t k n db s =
        (Inr (Order_placed (next_id (map o_id (orders db))) tot),
         db\<lparr>orders := orders db @
               [\<lparr>o_id = next_id (map o_id (orders db)), customer_name = strip c, table_no = strip t,
                 contact = strip k, note_text = strip n, status = ''NEW'', total_price = tot,
                 channel = ''onsite'', source_ip = forwarded_for e, created_at = clock e 0,
                 updated_at = clock e 2\<rparr>],
            order_items := order_items db @ new\<rparr>,
         reset_cart s)
      \<and> tot = lines_sum (to_float e) new
      \<and> (\<forall>l\<in>set new. order_id l = next_id (map o_id (orders db)))
      \<and> map (\<lambda>l. (item_id l, item_name l, unit_price l, quantity l)) new
           = map (\<lambda>(item, q). (Some (mi_id item), name item, price item, q)) (cart_rows db s)"
proof -
  from ne ok have f: "\<not> fails e Flush" "\<not> fails e Commit"
    and g: "\<forall>(mid, qty)\<in>set (the_cart s). \<not> fails e (Get mid)"
    by (auto simp: submission_steps_def)
  from add_lines_ok[OF g] obtain tot new where
    al: "add_lines e db (next_id (map o_id (orders db))) (the_cart s) (0, []) = Inr (tot, new)"
    by (metis surj_pair)
  from add_lines_shape[OF al] have
    "tot = lines_sum (to_float e) new"
    "\<forall>l\<in>set new. order_id l = next_id (map o_id (orders db))"
    "map (\<lambda>l. (item_id l, item_name l, unit_price l, quantity l)) new
           = map (\<lambda>(item, q). (Some (mi_id item), name item, price item, q)) (cart_rows db s)"
    by (auto simp: lines_sum_def cart_rows_def)
  moreover from ne f al have "place_order e c t k n db s =
        (Inr (Order_placed (next_id (map o_id (orders db))) tot),
         db\<lparr>orders := orders db @
               [\<lparr>o_id = next_id (map o_id (orders db)), customer_name = strip c, table_no = strip t,
                 contact = strip k, note_text = strip n, status = ''NEW'', total_price = tot,
                 channel = ''onsite'', source_ip = forwarded_for e, created_at = clock e 0,
                 updated_at = clock e 2\<rparr>],
            order_items := order_items db @ new\<rparr>,
         reset_cart s)"
    by (simp add: place_order_def Let_def)
  ultimately show ?thesis by blast
qed

lemma place_order_failure:
  fixes e :: "'p::{zero,plus,times} env"
  assumes bad: "\<exists>st\<in>set (submission_steps (the_cart s)). fails e st"
  shows "\<exists>st. place_order e c t k n db s = (Inl (StorageError st), db, s) \<and> fails e st
            \<and> st \<in> set (submission_steps (the_cart s))"
proof -
  from bad have ne: "the_cart s \<noteq> []" by (auto simp: submission_steps_def)
  show ?thesis
  proof (cases "fails e Flush")
    case True
    with ne show ?thesis by (auto simp: place_order_def Let_def submission_steps_def)
  next
    case nf: False
    show ?thesis
    proof (cases "\<exists>(mid, qty)\<in>set (the_cart s). fails e (Get mid)")
      case True
      from add_lines_fail[OF True, of db "next_id (map o_id (orders db))" "(0, [])"]
      obtain st where "add_lines e db (next_id (map o_id (orders db))) (the_cart s) (0, []) = Inl (StorageError st)"
        "fails e st" "st \<in> set (map (\<lambda>(mid, qty). Get mid) (the_cart s))" by blast
      with ne nf show ?thesis by (auto simp: place_order_def Let_def submission_steps_def)
    next
      case False
      then have g: "\<forall>(mid, qty)\<in>set (the_cart s). \<not> fails e (Get mid)" by auto
      with bad nf ne have c: "fails e Commit" by (auto simp: submission_steps_def)
      from add_lines_ok[OF g] obtain r where
        "add_lines e db (next_id (map o_id (orders db))) (the_cart s) (0, []) = Inr r" by blast
      with ne nf c show ?thesis
        by (auto simp: place_order_def Let_def submission_steps_def split: prod.splits)
    qed
  qed
qed


lemmas ex_defs = ex_menu_def ex_db_def ex_env_def ex_session_def ex_submit_def

lemmas run_defs = page_order_def place_order_def ensure_cart_def the_cart_def reset_cart_def
  get_MenuItem_def next_id_def cart_rows_def submission_steps_def Let_def

lemmas strip_defs = strip_def ws1_def ws2_def ws3_def

section \<open>Order submission\<close>

text \<open>
  Claim C1. When at least one cart entry resolves to a menu row and no persistence step
  raises, the submission appends exactly one order, with status NEW and a key no older
  order has; the lines it appends are not empty and all carry that key; the stored
  total is the sum of unit price times quantity over exactly these lines, added in
  their order from zero; the notice reports that key and total; and the cart of the
  session is empty afterwards. This holds for any arithmetic on prices.
\<close>

theorem order_total_is_sum_of_created_lines:
  fixes e :: "'p::{zero,plus,times} env"
  assumes "cart_rows db s \<noteq> []"
    and "\<forall>st\<in>set (submission_steps (the_cart s)). \<not> fails e st"
  shows "case page_order e (Place_order c t k n) db s of
           (r, db', s') \<Rightarrow>
             orders db' = orders db @ created_orders db db'
           \<and> length (created_orders db db') = 1
           \<and> status (last (orders db')) = ''NEW''
           \<and> o_id (last (orders db')) \<notin> set (map o_id (orders db))
           \<and> order_items db' = order_items db @ created_lines db db'
           \<and> created_lines db db' \<noteq> []
           \<and> (\<forall>l\<in>set (created_lines db db'). order_id l = o_id (last (orders db')))
           \<and> total_price (last (orders db')) = lines_sum (to_float e) (created_lines db db')
           \<and> r = Inr (Order_placed (o_id (last (orders db'))) (total_price (last (orders db'))))
           \<and> menu_items db' = menu_items db
           \<and> cart s' = Some []"
proof -
  from assms(1) have ne: "the_cart (ensure_cart s) \<noteq> []"
    by (auto simp: cart_rows_def)
  have rows: "cart_rows db (ensure_cart s) = cart_rows db s"
    by (simp add: cart_rows_def)
  from assms(2) have ok: "\<forall>st\<in>set (submission_steps (the_cart (ensure_cart s))). \<not> fails e st"
    by simp
  from place_order_success[OF ne ok, of c t k n db] obtain tot new where
    po: "place_order e c t k n db (ensure_cart s) =
        (Inr (Order_placed (next_id (map o_id (orders db))) tot),
         db\<lparr>orders := orders db @
               [\<lparr>o_id = next_id (map o_id (orders db)), customer_name = strip c, table_no = strip t,
                 contact = strip k, note_text = strip n, status = ''NEW'', total_price = tot,
                 channel = ''onsite'', source_ip = forwarded_for e, created_at = clock e 0,
                 updated_at = clock e 2\<rparr>],
            order_items := order_items db @ new\<rparr>,
         reset_cart (ensure_cart s))"
    and tot: "tot = lines_sum (to_float e) new"
    and oid: "\<forall>l\<in>set new. order_id l = next_id (map o_id (orders db))"
    and shape: "map (\<lambda>l. (item_id l, item_name l, unit_price l, quantity l)) new
           = map (\<lambda>(item, q). (Some (mi_id item), name item, price item, q)) (cart_rows db (ensure_cart s))"
    by blast
  from shape rows assms(1) have "new \<noteq> []" by auto
  with po tot oid next_id_fresh[of "map o_id (orders db)"] show ?thesis
    by (simp add: page_order_def created_orders_def created_lines_def reset_cart_def)
qed

theorem order_total_is_sum_of_created_lines_witness:
  "cart_rows ex_db (ex_session [(1, 2), (2, 1)]) \<noteq> []
   \<and> filter (fails ex_env) (submission_steps (the_cart (ex_session [(1, 2), (2, 1)]))) = []
   \<and> (case page_order ex_env ex_submit ex_db (ex_session [(1, 2), (2, 1)]) of
        (r, db', s') \<Rightarrow>
          length (created_orders ex_db db') = 1
        \<and> total_price (last (orders db')) = lines_sum (to_float ex_env) (created_lines ex_db db')
        \<and> total_price (last (orders db')) = 25
        \<and> map quantity (created_lines ex_db db') = [2, 1]
        \<and> cart s' = Some [])"
proof -
  have h1: "cart_rows ex_db (ex_session [(1, 2), (2, 1)]) \<noteq> []"
    by (simp add: ex_defs run_defs)
  have h2: "\<forall>st\<in>set (submission_steps (the_cart (ex_session [(1, 2), (2, 1)]))). \<not> fails ex_env st"
    by (simp add: ex_defs)
  have run: "page_order ex_env ex_submit ex_db (ex_session [(1, 2), (2, 1)]) =
     (Inr (Order_placed 1 25),
      ex_db\<lparr>orders := [\<lparr>o_id = 1, customer_name = ''Ann'', table_no = ''A1'', contact = [],
                note_text = [], status = ''NEW'', total_price = 25, channel = ''onsite'',
                source_ip = [], created_at = (2024, 1, 1, 12, 0, 0, 0),
                updated_at = (2024, 1, 1, 12, 0, 0, 2)\<rparr>],
             order_items := [\<lparr>oi_id = 1, order_id = 1, item_id = Some 1, item_name = ''EntryA'',
                               unit_price = 10, quantity = 2\<rparr>,
                             \<lparr>oi_id = 2, order_id = 1, item_id = Some 2, item_name = ''EntryB'',
                               unit_price = 5, quantity = 1\<rparr>]\<rparr>,
      \<lparr>cart = Some [], admin_ok = None\<rparr>)"
    by (simp add: ex_defs run_defs strip_defs)
  note r = run[unfolded ex_submit_def]
  have h3: "filter (fails ex_env) (submission_steps (the_cart (ex_session [(1, 2), (2, 1)]))) = []"
    by (simp add: ex_defs)
  from order_total_is_sum_of_created_lines[OF h1 h2, of "''Ann''" "''A1''" "[]" "[]"] h1 h3
  show ?thesis
    unfolding ex_submit_def r
    by (simp add: created_orders_def created_lines_def ex_db_def ex_env_def lines_sum_def)
qed

text \<open>
  Claim C3. Submitting with an empty cart reports the empty-cart warning and leaves
  the store as it was: no order and no order line is created, whatever the persistence
  layer would have done. The session only gains the empty cart that every run of the
  page creates when the key is missing.
\<close>

theorem empty_cart_rejected:
  fixes e :: "'p::{zero,plus,times} env"
  assumes "the_cart s = []"
  shows "page_order e (Place_order c t k n) db s = (Inr Cart_is_empty, db, ensure_cart s)"
  using assms by (simp add: page_order_def place_order_def)

theorem empty_cart_rejected_witness:
  "the_cart (ex_session []) = []
   \<and> page_order ex_env_commit_fails ex_submit ex_db (ex_session [])
       = (Inr Cart_is_empty, ex_db, ex_session [])"
proof -
  have h: "the_cart (ex_session []) = []"
    by (simp add: the_cart_def ex_session_def)
  from empty_cart_rejected[OF h, of ex_env_commit_fails "''Ann''" "''A1''" "[]" "[]" ex_db] h
  show ?thesis
    by (simp add: ex_submit_def ensure_cart_def ex_session_def)
qed

text \<open>
  Claim C2. A submission ends with an error exactly when one of its persistence steps
  (the flush, a query of the loop, the commit) raises. The error then names a step that
  raised and reaches the caller, and the durable store is the one before the
  submission: no header, no line and no total has been written. The cart is kept.
\<close>

theorem failed_submission_commits_nothing:
  fixes e :: "'p::{zero,plus,times} env"
  shows "case page_order e (Place_order c t k n) db s of
           (r, db', s') \<Rightarrow>
             (isl r \<longleftrightarrow> (\<exists>st\<in>set (submission_steps (the_cart s)). fails e st))
           \<and> (isl r \<longrightarrow>
                 db' = db \<and> s' = ensure_cart s
               \<and> (\<exists>st\<in>set (submission_steps (the_cart s)). r = Inl (StorageError st) \<and> fails e st))"
proof (cases "\<exists>st\<in>set (submission_steps (the_cart s)). fails e st")
  case True
  then have "\<exists>st\<in>set (submission_steps (the_cart (ensure_cart s))). fails e st" by simp
  from place_order_failure[OF this, of c t k n db] True show ?thesis
    by (auto simp: page_order_def)
next
  case False
  show ?thesis
  proof (cases "the_cart s = []")
    case True
    with False show ?thesis by (simp add: page_order_def place_order_def)
  next
    case ne: False
    then have ne': "the_cart (ensure_cart s) \<noteq> []" by simp
    from False have ok: "\<forall>st\<in>set (submission_steps (the_cart (ensure_cart s))). \<not> fails e st"
      by simp
    from place_order_success[OF ne' ok, of c t k n db] False show ?thesis
      by (auto simp: page_order_def)
  qed
qed

theorem failed_submission_commits_nothing_witness:
  "filter (fails ex_env_commit_fails) (submission_steps (the_cart (ex_session [(1, 2), (2, 1)]))) = [Commit]
   \<and> page_order ex_env_commit_fails ex_submit ex_db (ex_session [(1, 2), (2, 1)])
       = (Inl (StorageError Commit), ex_db, ex_session [(1, 2), (2, 1)])"
proof -
  have h: "filter (fails ex_env_commit_fails) (submission_steps (the_cart (ex_session [(1, 2), (2, 1)]))) = [Commit]"
    by (simp add: ex_defs ex_env_commit_fails_def run_defs)
  have "Commit \<in> set (submission_steps (the_cart (ex_session [(1, 2), (2, 1)])))
      \<and> fails ex_env_commit_fails Commit"
    by (simp add: ex_defs ex_env_commit_fails_def run_defs)
  then have "\<exists>st\<in>set (submission_steps (the_cart (ex_session [(1, 2), (2, 1)]))). fails ex_env_commit_fails st"
    by blast
  with failed_submission_commits_nothing[where e = ex_env_commit_fails and c = "''Ann''" and t = "''A1''"
      and k = "[]" and n = "[]" and db = ex_db and s = "ex_session [(1, 2), (2, 1)]"]
  have "case page_order ex_env_commit_fails ex_submit ex_db (ex_session [(1, 2), (2, 1)]) of
          (r, db', s') \<Rightarrow> isl r \<and> db' = ex_db \<and> s' = ensure_cart (ex_session [(1, 2), (2, 1)])
             \<and> (\<exists>st\<in>set (submission_steps (the_cart (ex_session [(1, 2), (2, 1)]))).
                   r = Inl (StorageError st) \<and> fails ex_env_commit_fails st)"
    by (auto simp: ex_submit_def)
  with h show ?thesis
    by (auto simp: ensure_cart_def ex_session_def ex_env_commit_fails_def the_cart_def submission_steps_def)
qed

text \<open>
  Claim C4. A cart entry whose menu id has no row at submission time raises no error
  and gets no order line: the lines created are, in order, those of the entries that
  resolve, none refers to the missing id, and the stored total is the sum over these
  lines only.
\<close>

theorem unresolved_entries_are_skipped:
  fixes e :: "'p::{zero,plus,times} env"
  assumes "(mid, qty) \<in> set (the_cart s)"
    and "get_MenuItem db mid = None"
    and "\<forall>st\<in>set (submission_steps (the_cart s)). \<not> fails e st"
  shows "case page_order e (Place_order c t k n) db s of
           (r, db', s') \<Rightarrow>
             \<not> isl r
           \<and> (\<forall>l\<in>set (created_lines db db'). item_id l \<noteq> Some mid)
           \<and> map (\<lambda>l. (item_id l, quantity l)) (created_lines db db')
               = map (\<lambda>(item, q). (Some (mi_id item), q)) (cart_rows db s)
           \<and> (mid, qty) \<notin> set (map (\<lambda>(item, q). (mi_id item, q)) (cart_rows db s))
           \<and> total_price (last (orders db')) = lines_sum (to_float e) (created_lines db db')"
proof -
  from assms(1) have ne: "the_cart (ensure_cart s) \<noteq> []" by auto
  have rows: "cart_rows db (ensure_cart s) = cart_rows db s"
    by (simp add: cart_rows_def)
  from assms(3) have ok: "\<forall>st\<in>set (submission_steps (the_cart (ensure_cart s))). \<not> fails e st"
    by simp
  from place_order_success[OF ne ok, of c t k n db] obtain tot new where
    po: "place_order e c t k n db (ensure_cart s) =
        (Inr (Order_placed (next_id (map o_id (orders db))) tot),
         db\<lparr>orders := orders db @
               [\<lparr>o_id = next_id (map o_id (orders db)), customer_name = strip c, table_no = strip t,
                 contact = strip k, note_text = strip n, status = ''NEW'', total_price = tot,
                 channel = ''onsite'', source_ip = forwarded_for e, created_at = clock e 0,
                 updated_at = clock e 2\<rparr>],
            order_items := order_items db @ new\<rparr>,
         reset_cart (ensure_cart s))"
    and tot: "tot = lines_sum (to_float e) new"
    and shape: "map (\<lambda>l. (item_id l, item_name l, unit_price l, quantity l)) new
           = map (\<lambda>(item, q). (Some (mi_id item), name item, price item, q)) (cart_rows db s)"
    unfolding rows by blast
  have unres: "\<And>item q. (item, q) \<in> set (cart_rows db s) \<Longrightarrow> mi_id item \<noteq> mid"
    using resolve_sound[of _ _ db "the_cart s"] assms(2) by (auto simp: cart_rows_def)
  from shape have "map ((\<lambda>(i, n, p, q). (i, q)) \<circ> (\<lambda>l. (item_id l, item_name l, unit_price l, quantity l))) new
      = map ((\<lambda>(i, n, p, q). (i, q)) \<circ> (\<lambda>(item, q). (Some (mi_id item), name item, price item, q))) (cart_rows db s)"
    by (metis map_map)
  then have proj: "map (\<lambda>l. (item_id l, quantity l)) new
      = map (\<lambda>(item, q). (Some (mi_id item), q)) (cart_rows db s)"
    by (simp add: comp_def case_prod_unfold)
  have nomid: "\<forall>l\<in>set new. item_id l \<noteq> Some mid"
  proof
    fix l assume "l \<in> set new"
    then have "(item_id l, quantity l) \<in> set (map (\<lambda>l. (item_id l, quantity l)) new)" by force
    with proj obtain item q where "(item, q) \<in> set (cart_rows db s)" "item_id l = Some (mi_id item)"
      by auto
    with unres show "item_id l \<noteq> Some mid" by auto
  qed
  from unres have "(mid, qty) \<notin> set (map (\<lambda>(item, q). (mi_id item, q)) (cart_rows db s))"
    by auto
  with po tot proj nomid show ?thesis
    by (simp add: page_order_def created_lines_def)
qed

theorem unresolved_entries_are_skipped_witness:
  "get_MenuItem ex_db 9 = None
   \<and> filter (fails ex_env) (submission_steps (the_cart (ex_session [(1, 2), (9, 1)]))) = []
   \<and> (case page_order ex_env ex_submit ex_db (ex_session [(1, 2), (9, 1)]) of
        (r, db', s') \<Rightarrow>
          r = Inr (Order_placed 1 20)
        \<and> map (\<lambda>l. (item_id l, quantity l)) (created_lines ex_db db') = [(Some 1, 2)]
        \<and> total_price (last (orders db')) = 20)"
proof -
  have h1: "(9, 1) \<in> set (the_cart (ex_session [(1, 2), (9, 1)]))"
    by (simp add: ex_defs run_defs)
  have h2: "get_MenuItem ex_db 9 = None"
    by (simp add: ex_defs run_defs)
  have h3: "\<forall>st\<in>set (submission_steps (the_cart (ex_session [(1, 2), (9, 1)]))). \<not> fails ex_env st"
    by (simp add: ex_defs)
  have h3': "filter (fails ex_env) (submission_steps (the_cart (ex_session [(1, 2), (9, 1)]))) = []"
    by (simp add: ex_defs)
  have run: "page_order ex_env (Place_order ''Ann'' ''A1'' [] []) ex_db (ex_session [(1, 2), (9, 1)]) =
     (Inr (Order_placed 1 20),
      ex_db\<lparr>orders := [\<lparr>o_id = 1, customer_name = ''Ann'', table_no = ''A1'', contact = [],
                note_text = [], status = ''NEW'', total_price = 20, channel = ''onsite'',
                source_ip = [], created_at = (2024, 1, 1, 12, 0, 0, 0),
                updated_at = (2024, 1, 1, 12, 0, 0, 2)\<rparr>],
             order_items := [\<lparr>oi_id = 1, order_id = 1, item_id = Some 1, item_name = ''EntryA'',
                               unit_price = 10, quantity = 2\<rparr>]\<rparr>,
      \<lparr>cart = Some [], admin_ok = None\<rparr>)"
    by (simp add: ex_defs run_defs strip_defs)
  from unresolved_entries_are_skipped[OF h1 h2 h3, of "''Ann''" "''A1''" "[]" "[]"] h2 h3'
  show ?thesis
    unfolding ex_submit_def run
    by (simp add: created_lines_def ex_db_def)
qed

section \<open>Displayed total and stored total\<close>

lemma add_lines_total:
  "add_lines e db oid c (t, ls) = Inr (tot, ls') \<Longrightarrow>
   tot = foldl (\<lambda>a (it, q). a + price it * to_float e q) t (resolve db c)"
proof (induction c arbitrary: t ls)
  case Nil
  then show ?case by simp
next
  case (Cons a c)
  obtain mid qty where a: "a = (mid, qty)" by (cases a)
  show ?case
  proof (cases "get_MenuItem db mid")
    case None
    with Cons.prems a have "add_lines e db oid c (t, ls) = Inr (tot, ls')"
      by (simp split: if_splits)
    from Cons.IH[OF this] None a show ?thesis by simp
  next
    case (Some item)
    with Cons.prems a obtain l where
      "add_lines e db oid c (t + price item * to_float e qty, ls @ [l]) = Inr (tot, ls')"
      by (simp split: if_splits)
    from Cons.IH[OF this] Some a show ?thesis by simp
  qed
qed

lemma cart_total_loop_fold:
  "cart_total_loop fl db c t
   = foldl (\<lambda>a (it, q). a + price it * fl q) t
       (filter (\<lambda>(it, q). is_available it) (resolve db c))"
proof (induction c arbitrary: t)
  case Nil
  then show ?case by simp
next
  case (Cons a c)
  obtain mid qty where a: "a = (mid, qty)" by (cases a)
  with Cons show ?case by (cases "get_MenuItem db mid") simp_all
qed

text \<open>
  The two loops run over the same rows; the displayed one leaves out the rows that are
  not available. When adding the amount of an available row keeps the order of two
  totals, and adding the amount of a row that is not available to the greater of two
  totals leaves it the greater, the displayed total is at most the stored one.
\<close>

lemma displayed_fold_le_stored_fold:
  fixes t1 t2 :: "'p::{zero,plus,times,ord}"
  assumes mono: "\<forall>(it, q)\<in>set rows. is_available it \<longrightarrow>
                   (\<forall>a b. a \<le> b \<longrightarrow> a + price it * fl q \<le> b + price it * fl q)"
    and incr: "\<forall>(it, q)\<in>set rows. \<not> is_available it \<longrightarrow>
                   (\<forall>a b. a \<le> b \<longrightarrow> a \<le> b + price it * fl q)"
    and le: "t1 \<le> t2"
  shows "foldl (\<lambda>a (it, q). a + price it * fl q) t1 (filter (\<lambda>(it, q). is_available it) rows)
         \<le> foldl (\<lambda>a (it, q). a + price it * fl q) t2 rows"
  using mono incr le
proof (induction rows arbitrary: t1 t2)
  case Nil
  then show ?case by simp
next
  case (Cons r rows)
  obtain it q where r: "r = (it, q)" by (cases r)
  from Cons.prems have m: "\<forall>(it, q)\<in>set rows. is_available it \<longrightarrow>
                   (\<forall>a b. a \<le> b \<longrightarrow> a + price it * fl q \<le> b + price it * fl q)"
    and i: "\<forall>(it, q)\<in>set rows. \<not> is_available it \<longrightarrow>
                   (\<forall>a b. a \<le> b \<longrightarrow> a \<le> b + price it * fl q)"
    by simp_all
  show ?case
  proof (cases "is_available it")
    case True
    with Cons.prems(1) r have "\<forall>a b. a \<le> b \<longrightarrow> a + price it * fl q \<le> b + price it * fl q"
      by simp
    with Cons.prems(3) have "t1 + price it * fl q \<le> t2 + price it * fl q" by blast
    from Cons.IH[OF m i this] True r show ?thesis by simp
  next
    case False
    with Cons.prems(2) r have "\<forall>a b. a \<le> b \<longrightarrow> a \<le> b + price it * fl q"
      by simp
    with Cons.prems(3) have "t1 \<le> t2 + price it * fl q" by blast
    from Cons.IH[OF m i this] False r show ?thesis by simp
  qed
qed

text \<open>
  In an ordered arithmetic with the usual laws, the two conditions hold for a cart with
  positive quantities in which no resolved row that is not available has a negative
  price.
\<close>

lemma conditions_from_nonnegative_prices:
  fixes fl :: "int \<Rightarrow> 'p::{zero,plus,times,preorder}"
  assumes mono: "\<forall>a b c::'p. a \<le> b \<longrightarrow> a + c \<le> b + c"
    and incr: "\<forall>a c::'p. 0 \<le> c \<longrightarrow> a \<le> a + c"
    and prod: "\<forall>p q. (0::'p) \<le> p \<and> 0 < q \<longrightarrow> 0 \<le> p * fl q"
    and nn: "\<forall>(it, q)\<in>set rows. \<not> is_available it \<longrightarrow> 0 \<le> price it"
    and qs: "\<forall>(it, q)\<in>set rows. 0 < q"
  shows "(\<forall>(it, q)\<in>set rows. is_available it \<longrightarrow>
            (\<forall>a b. a \<le> b \<longrightarrow> a + price it * fl q \<le> b + price it * fl q))
       \<and> (\<forall>(it, q)\<in>set rows. \<not> is_available it \<longrightarrow>
            (\<forall>a b. a \<le> b \<longrightarrow> a \<le> b + price it * fl q))"
proof (intro conjI ballI; clarify)
  fix it q a b assume "a \<le> (b::'p)"
  with mono show "a + price it * fl q \<le> b + price it * fl q" by blast
next
  fix it q a b
  assume iq: "(it, q) \<in> set rows" "\<not> is_available it" and ab: "a \<le> (b::'p)"
  from iq nn qs have "0 \<le> price it" "0 < q" by auto
  with prod have "0 \<le> price it * fl q" by blast
  with incr have "b \<le> b + price it * fl q" by blast
  with ab show "a \<le> b + price it * fl q" by (rule order_trans)
qed

text \<open>
  Claim C5, as amended. An entry of the cart whose menu row exists and is not
  available gets an order line with the row's name and price and the entry's quantity.
  The stored total is the sum, from zero and in the order of the cart, of price times
  quantity over all entries that resolve; the displayed cart total is the same sum over
  those of them that are available. The stored total is not less than the displayed one
  whenever zero is not above itself, adding the amount of an available entry keeps the
  order of two totals, and adding the amount of an entry that is not available to the
  greater of two totals leaves it the greater. Exact arithmetic meets these conditions
  when the quantities are positive and no entry that is not available has a negative
  price, and so does rounded addition of finite amounts. No law of a ring is used.
\<close>

theorem unavailable_entries_are_charged:
  fixes e :: "'p::{zero,plus,times,ord} env"
  assumes "\<forall>st\<in>set (submission_steps (the_cart s)). \<not> fails e st"
    and "(mid, qty) \<in> set (the_cart s)"
    and "get_MenuItem db mid = Some item"
    and "\<not> is_available item"
  shows "case page_order e (Place_order c t k n) db s of
           (r, db', s') \<Rightarrow>
             (\<exists>l\<in>set (created_lines db db').
                 item_id l = Some mid \<and> item_name l = name item
               \<and> unit_price l = price item \<and> quantity l = qty)
           \<and> total_price (last (orders db'))
               = foldl (\<lambda>a (it, q). a + price it * to_float e q) 0 (cart_rows db s)
           \<and> cart_total (to_float e) db s
               = foldl (\<lambda>a (it, q). a + price it * to_float e q) 0
                   (filter (\<lambda>(it, q). is_available it) (cart_rows db s))
           \<and> ((0::'p) \<le> 0
                \<and> (\<forall>(it, q)\<in>set (cart_rows db s). is_available it \<longrightarrow>
                      (\<forall>a b. a \<le> b \<longrightarrow>
                         a + price it * to_float e q \<le> b + price it * to_float e q))
                \<and> (\<forall>(it, q)\<in>set (cart_rows db s). \<not> is_available it \<longrightarrow>
                      (\<forall>a b. a \<le> b \<longrightarrow> a \<le> b + price it * to_float e q))
               \<longrightarrow> cart_total (to_float e) db s \<le> total_price (last (orders db')))"
proof -
  let ?f = "\<lambda>a (it, q). a + price it * to_float e q"
  from assms(2) have ne: "the_cart (ensure_cart s) \<noteq> []" by auto
  have rows: "cart_rows db (ensure_cart s) = cart_rows db s"
    by (simp add: cart_rows_def)
  from assms(1) have ok: "\<forall>st\<in>set (submission_steps (the_cart (ensure_cart s))). \<not> fails e st"
    by simp
  from ne ok have f: "\<not> fails e Flush"
    by (auto simp: submission_steps_def)
  from place_order_success[OF ne ok, of c t k n db] obtain tot new where
    po: "place_order e c t k n db (ensure_cart s) =
        (Inr (Order_placed (next_id (map o_id (orders db))) tot),
         db\<lparr>orders := orders db @
               [\<lparr>o_id = next_id (map o_id (orders db)), customer_name = strip c, table_no = strip t,
                 contact = strip k, note_text = strip n, status = ''NEW'', total_price = tot,
                 channel = ''onsite'', source_ip = forwarded_for e, created_at = clock e 0,
                 updated_at = clock e 2\<rparr>],
            order_items := order_items db @ new\<rparr>,
         reset_cart (ensure_cart s))"
    and shape: "map (\<lambda>l. (item_id l, item_name l, unit_price l, quantity l)) new
           = map (\<lambda>(item, q). (Some (mi_id item), name item, price item, q)) (cart_rows db s)"
    unfolding rows by blast
  from po ne f have "\<exists>ls. add_lines e db (next_id (map o_id (orders db))) (the_cart s) (0, []) = Inr (tot, ls)"
    by (auto simp: place_order_def Let_def split: sum.splits prod.splits if_splits)
  then obtain ls where "add_lines e db (next_id (map o_id (orders db))) (the_cart s) (0, []) = Inr (tot, ls)"
    by blast
  from add_lines_total[OF this] have stored: "tot = foldl ?f 0 (cart_rows db s)"
    by (simp add: cart_rows_def)
  have shown: "cart_total (to_float e) db s
      = foldl ?f 0 (filter (\<lambda>(it, q). is_available it) (cart_rows db s))"
    by (simp add: cart_total_def cart_rows_def cart_total_loop_fold)
  have mid: "mi_id item = mid"
    using assms(3) by (auto simp: get_MenuItem_def find_Some_iff)
  have inrows: "(item, qty) \<in> set (cart_rows db s)"
    using resolve_complete[OF assms(2,3)] by (simp add: cart_rows_def)
  then have "(Some (mi_id item), name item, price item, qty)
      \<in> set (map (\<lambda>(item, q). (Some (mi_id item), name item, price item, q)) (cart_rows db s))"
    by force
  with shape have "(Some mid, name item, price item, qty)
      \<in> set (map (\<lambda>l. (item_id l, item_name l, unit_price l, quantity l)) new)"
    by (simp add: mid)
  then have line: "\<exists>l\<in>set new. item_id l = Some mid \<and> item_name l = name item
      \<and> unit_price l = price item \<and> quantity l = qty"
    by auto
  have le: "cart_total (to_float e) db s \<le> tot"
    if z: "(0::'p) \<le> 0"
      and mono: "\<forall>(it, q)\<in>set (cart_rows db s). is_available it \<longrightarrow>
                      (\<forall>a b. a \<le> b \<longrightarrow>
                         a + price it * to_float e q \<le> b + price it * to_float e q)"
      and incr: "\<forall>(it, q)\<in>set (cart_rows db s). \<not> is_available it \<longrightarrow>
                      (\<forall>a b. a \<le> b \<longrightarrow> a \<le> b + price it * to_float e q)"
    using displayed_fold_le_stored_fold[OF mono incr z] by (simp only: shown stored)
  from po line stored shown le show ?thesis
    by (simp add: page_order_def created_lines_def)
qed


theorem unavailable_entries_are_charged_witness:
  "map_option is_available (get_MenuItem ex_db 3) = Some False
   \<and> map_option price (get_MenuItem ex_db 3) = Some 5
   \<and> cart_total (to_float ex_env) ex_db (ex_session [(1, 2), (3, 1)]) = 20
   \<and> total_price (last (orders (fst (snd (page_order ex_env ex_submit ex_db (ex_session [(1, 2), (3, 1)])))))) = 25
   \<and> cart_total (to_float ex_env) ex_db (ex_session [(1, 2), (3, 1)]) \<le> total_price (last (orders (fst (snd (page_order ex_env ex_submit ex_db (ex_session [(1, 2), (3, 1)]))))))"
proof -
  let ?s = "ex_session [(1, 2), (3, 1)]"
  let ?cake = "\<lparr>mi_id = 3, name = ''Cake'', price = 5::real, category = ''Food'', description = [],
       image_url = [], is_available = False\<rparr>"
  have h2: "\<forall>st\<in>set (submission_steps (the_cart ?s)). \<not> fails ex_env st"
    by (simp add: ex_defs)
  have h3: "(3, 1) \<in> set (the_cart ?s)" by (simp add: ex_defs run_defs)
  have h4: "get_MenuItem ex_db 3 = Some ?cake" by (simp add: ex_defs run_defs)
  have h5: "\<not> is_available ?cake" by simp
  have rows: "cart_rows ex_db ?s =
      [(\<lparr>mi_id = 1, name = ''EntryA'', price = 10, category = ''Food'', description = [],
         image_url = [], is_available = True\<rparr>, 2), (?cake, 1)]"
    by (simp add: ex_defs run_defs)
  have ct: "cart_total (to_float ex_env) ex_db ?s = 20"
    by (simp add: ex_defs run_defs cart_total_def)
  have fl: "to_float ex_env = of_int" by (simp add: ex_env_def)
  have laws: "(\<forall>a b c::real. a \<le> b \<longrightarrow> a + c \<le> b + c)"
    "(\<forall>a c::real. 0 \<le> c \<longrightarrow> a \<le> a + c)"
    "(\<forall>p q. (0::real) \<le> p \<and> 0 < q \<longrightarrow> 0 \<le> p * to_float ex_env q)"
    by (simp_all add: fl)
  have nn: "\<forall>(it, q)\<in>set (cart_rows ex_db ?s). \<not> is_available it \<longrightarrow> 0 \<le> price it"
    and qs: "\<forall>(it, q)\<in>set (cart_rows ex_db ?s). 0 < q"
    unfolding rows by simp_all
  note h6 = conditions_from_nonnegative_prices[OF laws nn qs]
  have z: "(0::real) \<le> 0" by simp
  have tp: "total_price (last (orders (fst (snd (page_order ex_env ex_submit ex_db (ex_session [(1, 2), (3, 1)])))))) = 25"
    by (simp add: ex_defs run_defs strip_defs)
  from unavailable_entries_are_charged[OF h2 h3 h4 h5, of "''Ann''" "''A1''" "[]" "[]"] z h6
  have "cart_total (to_float ex_env) ex_db ?s \<le> total_price (last (orders (fst (snd (page_order ex_env ex_submit ex_db (ex_session [(1, 2), (3, 1)]))))))"
    by (simp add: ex_submit_def case_prod_unfold)
  with h4 ct tp show ?thesis by simp
qed

theorem unavailable_entry_total_not_greater_counterexample:
  "(3, 1) \<in> set (the_cart (ex_session [(3, 1), (4, 1)]))
   \<and> map_option is_available (get_MenuItem ex_db 3) = Some False
   \<and> map_option price (get_MenuItem ex_db 3) = Some 5
   \<and> cart_total of_int ex_db (ex_session [(3, 1), (4, 1)]) = 0
   \<and> total_price (last (orders (fst (snd (page_order ex_env ex_submit ex_db (ex_session [(3, 1), (4, 1)])))))) = 0
   \<and> \<not> cart_total of_int ex_db (ex_session [(3, 1), (4, 1)]) < total_price (last (orders (fst (snd (page_order ex_env ex_submit ex_db (ex_session [(3, 1), (4, 1)]))))))"
  by (simp add: ex_defs run_defs cart_total_def strip_defs)

text \<open>
  Without negative prices the stored total still need not be strictly greater. The
  extended natural numbers satisfy the three laws of lemma
  \<open>conditions_from_nonnegative_prices\<close>, so the two conditions hold there, and with an
  available row of absorbing price and a row of price 1 that is not available both
  totals are the absorbing value. Floating point behaves so at its infinity, and at a
  total so large that adding the small amount rounds back to it.
\<close>

lemma stored_total_need_not_exceed_displayed:
  "map_option is_available (get_MenuItem ex_db_absorbing 2) = Some False
   \<and> map_option price (get_MenuItem ex_db_absorbing 2) = Some 1
   \<and> cart_total (to_float ex_env_absorbing) ex_db_absorbing (ex_session [(1, 1), (2, 1)]) = \<infinity>
   \<and> total_price (last (orders (fst (snd (page_order ex_env_absorbing ex_submit ex_db_absorbing (ex_session [(1, 1), (2, 1)])))))) = \<infinity>
   \<and> (\<forall>a b c::enat. a \<le> b \<longrightarrow> a + c \<le> b + c)
   \<and> (\<forall>a c::enat. 0 \<le> c \<longrightarrow> a \<le> a + c)
   \<and> (\<forall>p q. (0::enat) \<le> p \<and> 0 < q \<longrightarrow> 0 \<le> p * to_float ex_env_absorbing q)"
proof -
  have "(\<forall>a b c::enat. a \<le> b \<longrightarrow> a + c \<le> b + c)"
    by (simp add: add_right_mono)
  moreover have "map_option is_available (get_MenuItem ex_db_absorbing 2) = Some False
   \<and> map_option price (get_MenuItem ex_db_absorbing 2) = Some 1
   \<and> cart_total (to_float ex_env_absorbing) ex_db_absorbing (ex_session [(1, 1), (2, 1)]) = \<infinity>
   \<and> total_price (last (orders (fst (snd (page_order ex_env_absorbing ex_submit ex_db_absorbing (ex_session [(1, 1), (2, 1)])))))) = \<infinity>"
    by (simp add: ex_db_absorbing_def ex_env_absorbing_def ex_session_def ex_submit_def
        run_defs cart_total_def strip_defs one_enat_def zero_enat_def)
  ultimately show ?thesis by simp
qed

section \<open>Order listing\<close>

lemma order_by_created_at_desc_mset [simp]:
  "mset (order_by_created_at_desc xs) = mset xs"
  by (simp add: order_by_created_at_desc_def)

lemma order_by_created_at_desc_sorted:
  "sorted_wrt (\<lambda>a b. created_at b \<le> created_at a) (order_by_created_at_desc xs)"
proof -
  have "sorted (map created_at (sort_key created_at (rev xs)))" by simp
  then have "sorted_wrt (\<lambda>a b. created_at a \<le> created_at b) (sort_key created_at (rev xs))"
    by (simp add: sorted_wrt_map)
  then show ?thesis
    by (simp add: order_by_created_at_desc_def sorted_wrt_rev)
qed

lemma orders_query_filter:
  "orders_query like_op f db =
   order_by_created_at_desc
     (filter (\<lambda>od. day_first (d_from f) \<le> created_at od \<and> created_at od \<le> day_last (d_to f)
                    \<and> (status_sel f = [] \<or> status od \<in> set (status_sel f))
                    \<and> (keyword f = []
                        \<or> like_op (customer_name od) (''%'' @ keyword f @ ''%'')
                        \<or> like_op (table_no od) (''%'' @ keyword f @ ''%'')
                        \<or> like_op (contact od) (''%'' @ keyword f @ ''%''))) (orders db))"
  unfolding orders_query_def Let_def
  by (cases "status_sel f = []"; cases "keyword f = []") (simp_all add: conj_assoc)

lemma orders_query_mset:
  "mset (orders_query like_op f db) =
   mset (filter (\<lambda>od. day_first (d_from f) \<le> created_at od \<and> created_at od \<le> day_last (d_to f)
                    \<and> (status_sel f = [] \<or> status od \<in> set (status_sel f))
                    \<and> (keyword f = []
                        \<or> like_op (customer_name od) (''%'' @ keyword f @ ''%'')
                        \<or> like_op (table_no od) (''%'' @ keyword f @ ''%'')
                        \<or> like_op (contact od) (''%'' @ keyword f @ ''%''))) (orders db))"
  by (simp only: orders_query_filter order_by_created_at_desc_mset)

text \<open>
  What the query lists. With no keyword and a status selection that lets every stored
  order through, these are the orders created at or after the instant 00:00:00 of the
  start date and at or before the instant 23:59:59, microsecond 0, of the end date,
  each once, in descending order of creation time.
\<close>

lemma orders_query_range:
  assumes "d_from f = (y1, m1, dd1)" and "d_to f = (y2, m2, dd2)"
    and "keyword f = []"
    and "status_sel f = [] \<or> (\<forall>od\<in>set (orders db). status od \<in> set (status_sel f))"
  shows "mset (orders_query like_op f db)
           = mset (filter (\<lambda>od. (y1, m1, dd1, 0, 0, 0, 0) \<le> created_at od
                               \<and> created_at od \<le> (y2, m2, dd2, 23, 59, 59, 0)) (orders db))
       \<and> sorted_wrt (\<lambda>a b. created_at b \<le> created_at a) (orders_query like_op f db)"
proof
  have "filter (\<lambda>od. day_first (d_from f) \<le> created_at od \<and> created_at od \<le> day_last (d_to f)
                    \<and> (status_sel f = [] \<or> status od \<in> set (status_sel f))
                    \<and> (keyword f = []
                        \<or> like_op (customer_name od) (''%'' @ keyword f @ ''%'')
                        \<or> like_op (table_no od) (''%'' @ keyword f @ ''%'')
                        \<or> like_op (contact od) (''%'' @ keyword f @ ''%''))) (orders db)
      = filter (\<lambda>od. (y1, m1, dd1, 0, 0, 0, 0) \<le> created_at od
                               \<and> created_at od \<le> (y2, m2, dd2, 23, 59, 59, 0)) (orders db)"
    using assms by (intro filter_cong) (auto simp: day_first_def day_last_def)
  then show "mset (orders_query like_op f db)
           = mset (filter (\<lambda>od. (y1, m1, dd1, 0, 0, 0, 0) \<le> created_at od
                               \<and> created_at od \<le> (y2, m2, dd2, 23, 59, 59, 0)) (orders db))"
    by (simp only: orders_query_mset)
  show "sorted_wrt (\<lambda>a b. created_at b \<le> created_at a) (orders_query like_op f db)"
    by (simp add: orders_query_def Let_def order_by_created_at_desc_sorted)
qed

lemmas ex_order_defs = ex_order_def ex_orders_db_def ex_filters_def ex_like_def

lemmas query_defs = orders_query_def order_by_created_at_desc_def day_first_def day_last_def
  statuses_def Let_def

lemma listing_of_one_day:
  "map o_id (orders_query ex_like (ex_filters statuses (2024, 1, 1) (2024, 1, 1)) ex_orders_db)
     = [3, 2, 1]"
  by (simp add: ex_order_defs query_defs)

text \<open>Orders of equal creation time are listed in the order of the table.\<close>

lemma equal_times_keep_table_order:
  "map o_id (order_by_created_at_desc
     [ex_order 1 ''NEW'' (2024, 1, 1, 9, 0, 0, 0), ex_order 2 ''NEW'' (2024, 1, 1, 9, 0, 0, 0),
      ex_order 3 ''NEW'' (2024, 1, 1, 9, 0, 0, 0), ex_order 4 ''NEW'' (2024, 1, 1, 8, 0, 0, 0)])
   = [1, 2, 3, 4]"
  by (simp add: ex_order_def order_by_created_at_desc_def)

lemma orders_query_upper_bound:
  "od \<in> set (orders_query like_op f db) \<Longrightarrow> created_at od \<le> day_last (d_to f)"
proof -
  assume "od \<in> set (orders_query like_op f db)"
  then have "od \<in># mset (orders_query like_op f db)" by simp
  then show ?thesis unfolding orders_query_mset by simp
qed

text \<open>
  Claim C6. The listing of a date range is to hold the orders created up to and
  including 23:59:59 of the end date. The code misses the last of them: the upper bound
  of its query is the instant 23:59:59 with microsecond 0 (line 339), while the creation
  time of an order is a reading of the clock with microseconds (line 288). An order
  created at 23:59:59 and a positive number of microseconds of a day is in no listing
  that has this day as its end date, whatever the start date, the status selection and
  the keyword are.
\<close>

theorem order_in_last_second_not_listed:
  assumes "d_to f = (y, m, dd)"
    and "created_at od = (y, m, dd, 23, 59, 59, us)"
    and "0 < us"
  shows "od \<notin> set (orders_query like_op f db)"
proof
  assume "od \<in> set (orders_query like_op f db)"
  then have "created_at od \<le> day_last (d_to f)" by (rule orders_query_upper_bound)
  with assms show False by (simp add: day_last_def)
qed

theorem order_in_last_second_not_listed_witness:
  "d_to (ex_filters statuses (2024, 3, 5) (2024, 3, 5)) = (2024, 3, 5)
   \<and> map created_at (orders ex_late_db)
       = [(2024, 3, 5, 23, 59, 59, 500000), (2024, 3, 5, 23, 59, 59, 0)]
   \<and> map o_id (orders_query ex_like (ex_filters statuses (2024, 3, 5) (2024, 3, 5)) ex_late_db) = [2]
   \<and> ex_order 1 ''NEW'' (2024, 3, 5, 23, 59, 59, 500000)
       \<notin> set (orders_query ex_like (ex_filters statuses (2024, 3, 5) (2024, 3, 5)) ex_late_db)"
proof -
  have h1: "d_to (ex_filters statuses (2024, 3, 5) (2024, 3, 5)) = (2024, 3, 5)"
    by (simp add: ex_filters_def)
  have h2: "created_at (ex_order 1 ''NEW'' (2024, 3, 5, 23, 59, 59, 500000))
      = (2024, 3, 5, 23, 59, 59, 500000)"
    by (simp add: ex_order_def)
  have h3: "(0::int) < 500000" by simp
  have ts: "map created_at (orders ex_late_db)
       = [(2024, 3, 5, 23, 59, 59, 500000), (2024, 3, 5, 23, 59, 59, 0)]"
    by (simp add: ex_late_db_def ex_order_def)
  have ids: "map o_id (orders_query ex_like (ex_filters statuses (2024, 3, 5) (2024, 3, 5)) ex_late_db) = [2]"
    by (simp add: ex_late_db_def ex_order_def ex_filters_def ex_like_def query_defs)
  from order_in_last_second_not_listed[OF h1 h2 h3, of ex_like ex_late_db] h1 ts ids
  show ?thesis by simp
qed

text \<open>
  Claim C10. An empty status selection puts no condition on the status: the listing
  then holds exactly the orders in the date range that pass the keyword filter, so an
  order in the range is listed whatever its status is, and when every stored order has
  one of the five statuses the listing is the one that selecting all five gives.
\<close>

theorem empty_status_selection_lists_all:
  assumes "status_sel f = []"
  shows "mset (orders_query like_op f db)
           = mset (filter (\<lambda>od. day_first (d_from f) \<le> created_at od
                               \<and> created_at od \<le> day_last (d_to f)
                               \<and> (keyword f = []
                                   \<or> like_op (customer_name od) (''%'' @ keyword f @ ''%'')
                                   \<or> like_op (table_no od) (''%'' @ keyword f @ ''%'')
                                   \<or> like_op (contact od) (''%'' @ keyword f @ ''%''))) (orders db))
       \<and> (\<forall>od\<in>set (orders db).
             keyword f = [] \<and> day_first (d_from f) \<le> created_at od \<and> created_at od \<le> day_last (d_to f)
             \<longrightarrow> od \<in> set (orders_query like_op f db))
       \<and> ((\<forall>od\<in>set (orders db). status od \<in> set statuses)
             \<longrightarrow> orders_query like_op f db = orders_query like_op (f\<lparr>status_sel := statuses\<rparr>) db)"
proof (intro conjI)
  show m: "mset (orders_query like_op f db)
           = mset (filter (\<lambda>od. day_first (d_from f) \<le> created_at od
                               \<and> created_at od \<le> day_last (d_to f)
                               \<and> (keyword f = []
                                   \<or> like_op (customer_name od) (''%'' @ keyword f @ ''%'')
                                   \<or> like_op (table_no od) (''%'' @ keyword f @ ''%'')
                                   \<or> like_op (contact od) (''%'' @ keyword f @ ''%''))) (orders db))"
    using assms by (simp add: orders_query_mset)
  show "\<forall>od\<in>set (orders db).
             keyword f = [] \<and> day_first (d_from f) \<le> created_at od \<and> created_at od \<le> day_last (d_to f)
             \<longrightarrow> od \<in> set (orders_query like_op f db)"
  proof (intro ballI impI)
    fix od assume "od \<in> set (orders db)"
      and "keyword f = [] \<and> day_first (d_from f) \<le> created_at od \<and> created_at od \<le> day_last (d_to f)"
    then have "od \<in># mset (orders_query like_op f db)"
      unfolding m by simp
    then show "od \<in> set (orders_query like_op f db)" by simp
  qed
  show "(\<forall>od\<in>set (orders db). status od \<in> set statuses)
             \<longrightarrow> orders_query like_op f db = orders_query like_op (f\<lparr>status_sel := statuses\<rparr>) db"
  proof
    assume all: "\<forall>od\<in>set (orders db). status od \<in> set statuses"
    have "filter (\<lambda>od. day_first (d_from f) \<le> created_at od \<and> created_at od \<le> day_last (d_to f)
                    \<and> (status_sel f = [] \<or> status od \<in> set (status_sel f))
                    \<and> (keyword f = []
                        \<or> like_op (customer_name od) (''%'' @ keyword f @ ''%'')
                        \<or> like_op (table_no od) (''%'' @ keyword f @ ''%'')
                        \<or> like_op (contact od) (''%'' @ keyword f @ ''%''))) (orders db)
        = filter (\<lambda>od. day_first (d_from f) \<le> created_at od \<and> created_at od \<le> day_last (d_to f)
                    \<and> (statuses = [] \<or> status od \<in> set statuses)
                    \<and> (keyword f = []
                        \<or> like_op (customer_name od) (''%'' @ keyword f @ ''%'')
                        \<or> like_op (table_no od) (''%'' @ keyword f @ ''%'')
                        \<or> like_op (contact od) (''%'' @ keyword f @ ''%''))) (orders db)"
      using assms all by (intro filter_cong) auto
    then show "orders_query like_op f db = orders_query like_op (f\<lparr>status_sel := statuses\<rparr>) db"
      by (simp add: orders_query_filter)
  qed
qed

theorem empty_status_selection_lists_all_witness:
  "status_sel (ex_filters [] (2023, 12, 31) (2024, 1, 2)) = []
   \<and> map o_id (orders_query ex_like (ex_filters [] (2023, 12, 31) (2024, 1, 2)) ex_orders_db)
       = [4, 6, 3, 2, 1, 5]
   \<and> map status (orders_query ex_like (ex_filters [] (2023, 12, 31) (2024, 1, 2)) ex_orders_db)
       = [''SERVED'', ''NEW'', ''PREPARING'', ''CONFIRMED'', ''NEW'', ''CANCELLED'']
   \<and> orders_query ex_like (ex_filters [] (2023, 12, 31) (2024, 1, 2)) ex_orders_db
       = orders_query ex_like (ex_filters statuses (2023, 12, 31) (2024, 1, 2)) ex_orders_db"
proof -
  let ?f = "ex_filters [] (2023, 12, 31) (2024, 1, 2)"
  have h: "status_sel ?f = []" by (simp add: ex_filters_def)
  have all: "\<forall>od\<in>set (orders ex_orders_db). status od \<in> set statuses"
    by (simp add: ex_order_defs statuses_def)
  have upd: "?f\<lparr>status_sel := statuses\<rparr> = ex_filters statuses (2023, 12, 31) (2024, 1, 2)"
    by (simp add: ex_filters_def)
  have ids: "map o_id (orders_query ex_like ?f ex_orders_db) = [4, 6, 3, 2, 1, 5]"
    by (simp add: ex_order_defs query_defs)
  have sts: "map status (orders_query ex_like ?f ex_orders_db)
       = [''SERVED'', ''NEW'', ''PREPARING'', ''CONFIRMED'', ''NEW'', ''CANCELLED'']"
    by (simp add: ex_order_defs query_defs)
  from empty_status_selection_lists_all[OF h, of ex_like ex_orders_db] all
  have "orders_query ex_like ?f ex_orders_db = orders_query ex_like (?f\<lparr>status_sel := statuses\<rparr>) ex_orders_db"
    by blast
  with h ids sts upd show ?thesis by simp
qed

section \<open>Table links\<close>

lemma rstrip_no_trailing: "s = [] \<or> last s \<noteq> c \<Longrightarrow> rstrip c s = s"
  by (cases s rule: rev_cases) (auto simp: rstrip_def)

lemma rstrip_replicate: "s = [] \<or> last s \<noteq> c \<Longrightarrow> rstrip c (s @ replicate k c) = s"
proof -
  assume a: "s = [] \<or> last s \<noteq> c"
  have "dropWhile (\<lambda>x. x = c) (replicate k c @ rev s) = dropWhile (\<lambda>x. x = c) (rev s)"
    by (induction k) simp_all
  then have "rstrip c (s @ replicate k c) = rstrip c s"
    by (simp add: rstrip_def)
  with a show ?thesis by (simp add: rstrip_no_trailing)
qed

lemma str_int_examples: "str_int 12 = ''12'' \<and> str_int 7 = ''7'' \<and> str_int 105 = ''105''"
  by (simp add: str_int_def digit_char_def)

lemma range_py_length: "length (range_py a (a + n)) = nat n"
  by (simp add: range_py_def)

lemma range_py_nth: "k < nat n \<Longrightarrow> range_py a (a + n) ! k = a + int k"
  by (simp add: range_py_def)

text \<open>
  Claim C7, as amended. The link is the base URL without its trailing slashes, then
  \<open>/?\<close>, the parameter name, \<open>=\<close>, the table identifier, and \<open>&mode=list\<close>
  exactly when the mobile flag is set. For a base URL that does not end in a slash
  this is the base URL itself followed by the rest, as for \<open>https://x.test\<close>, table
  \<open>A1\<close>, flag on; trailing slashes of the base URL make no difference. With the
  encoder installed, the batch gives one file name and link per number from the start
  number on, as many as the count says, for the identifier made of the prefix and the
  decimal text of the number; the single variant gives the one link.
\<close>

theorem table_link_shape:
  "table_url b p t m
     = rstrip (CHR ''/'') b @ ''/?'' @ p @ ''='' @ t @ (if m then ''&mode=list'' else [])
   \<and> (b = [] \<or> last b \<noteq> CHR ''/'' \<longrightarrow>
        table_url b p t m = b @ ''/?'' @ p @ ''='' @ t @ (if m then ''&mode=list'' else []))
   \<and> (b = [] \<or> last b \<noteq> CHR ''/'' \<longrightarrow>
        table_url (b @ replicate k (CHR ''/'')) p t m = table_url b p t m)
   \<and> table_url ''https://x.test'' ''table'' ''A1'' True = ''https://x.test/?table=A1&mode=list''
   \<and> (qrcode_installed cfg \<longrightarrow>
        qr_codes_of (page_qr cfg b p m (Single t)) = [(''qr_'' @ t @ ''.png'', table_url b p t m)])
   \<and> (qrcode_installed cfg \<longrightarrow>
        length (qr_codes_of (page_qr cfg b p m (Batch prefix start_no cnt))) = nat cnt
      \<and> (\<forall>j<nat cnt.
            qr_codes_of (page_qr cfg b p m (Batch prefix start_no cnt)) ! j
              = (''qr_'' @ prefix @ str_int (start_no + int j) @ ''.png'',
                 table_url b p (prefix @ str_int (start_no + int j)) m)))"
proof (intro conjI impI allI)
  show "table_url b p t m
     = rstrip (CHR ''/'') b @ ''/?'' @ p @ ''='' @ t @ (if m then ''&mode=list'' else [])"
    by (simp add: table_url_def)
next
  assume "b = [] \<or> last b \<noteq> CHR ''/''"
  then show "table_url b p t m = b @ ''/?'' @ p @ ''='' @ t @ (if m then ''&mode=list'' else [])"
    by (simp add: table_url_def rstrip_no_trailing)
next
  assume a: "b = [] \<or> last b \<noteq> CHR ''/''"
  then show "table_url (b @ replicate k (CHR ''/'')) p t m = table_url b p t m"
    by (simp add: table_url_def rstrip_replicate rstrip_no_trailing)
next
  show "table_url ''https://x.test'' ''table'' ''A1'' True = ''https://x.test/?table=A1&mode=list''"
    by (simp add: table_url_def rstrip_def)
next
  assume "qrcode_installed cfg"
  then show "qr_codes_of (page_qr cfg b p m (Single t)) = [(''qr_'' @ t @ ''.png'', table_url b p t m)]"
    by (simp add: page_qr_def)
next
  assume "qrcode_installed cfg"
  then show "length (qr_codes_of (page_qr cfg b p m (Batch prefix start_no cnt))) = nat cnt"
    by (simp add: page_qr_def range_py_length)
next
  fix j
  assume q: "qrcode_installed cfg" and j: "j < nat cnt"
  then have "j < length (range_py start_no (start_no + cnt))"
    by (simp add: range_py_length)
  with q j show "qr_codes_of (page_qr cfg b p m (Batch prefix start_no cnt)) ! j
              = (''qr_'' @ prefix @ str_int (start_no + int j) @ ''.png'',
                 table_url b p (prefix @ str_int (start_no + int j)) m)"
    by (simp add: page_qr_def range_py_nth Let_def)
qed

theorem table_link_shape_witness:
  "last ''https://x.test'' \<noteq> CHR ''/''
   \<and> qrcode_installed ex_cfg
   \<and> table_url (''https://x.test'' @ replicate 2 (CHR ''/'')) ''table'' ''A1'' False
       = ''https://x.test/?table=A1''
   \<and> qr_codes_of (page_qr ex_cfg ''https://x.test'' ''table'' True (Batch ''A'' 9 3))
       = [(''qr_A9.png'', ''https://x.test/?table=A9&mode=list''),
          (''qr_A10.png'', ''https://x.test/?table=A10&mode=list''),
          (''qr_A11.png'', ''https://x.test/?table=A11&mode=list'')]"
proof -
  have h1: "last ''https://x.test'' \<noteq> CHR ''/''" by simp
  have h2: "qrcode_installed ex_cfg" by (simp add: ex_cfg_def)
  have u: "table_url ''https://x.test'' ''table'' ''A1'' False = ''https://x.test/?table=A1''"
    by (simp add: table_url_def rstrip_def)
  have b: "qr_codes_of (page_qr ex_cfg ''https://x.test'' ''table'' True (Batch ''A'' 9 3))
       = [(''qr_A9.png'', ''https://x.test/?table=A9&mode=list''),
          (''qr_A10.png'', ''https://x.test/?table=A10&mode=list''),
          (''qr_A11.png'', ''https://x.test/?table=A11&mode=list'')]"
    by (simp add: page_qr_def ex_cfg_def range_py_def table_url_def rstrip_def str_int_def
        digit_char_def Let_def upto.simps)
  from table_link_shape[where b = "''https://x.test''" and k = 2 and p = "''table''"
      and t = "''A1''" and m = False and cfg = ex_cfg] h1
  have "table_url (''https://x.test'' @ replicate 2 (CHR ''/'')) ''table'' ''A1'' False
       = table_url ''https://x.test'' ''table'' ''A1'' False"
    by blast
  with h1 h2 u b show ?thesis by simp
qed

theorem link_with_trailing_slash_counterexample:
  "table_url ''https://x.test/'' ''table'' ''A1'' True
     \<noteq> ''https://x.test/'' @ ''/?'' @ ''table'' @ ''='' @ ''A1'' @ ''&mode=list''
   \<and> table_url ''https://x.test/'' ''table'' ''A1'' True = ''https://x.test/?table=A1&mode=list''"
  by (simp add: table_url_def rstrip_def)

section \<open>Administrator gate\<close>

lemma place_order_admin_ok:
  "admin_ok (snd (snd (place_order e c t k n db s))) = admin_ok s"
  by (simp add: place_order_def Let_def reset_cart_def split: sum.splits prod.splits)

lemma page_order_admin_ok:
  "admin_ok (snd (snd (page_order e ev db s))) = admin_ok s"
proof -
  have e: "admin_ok (ensure_cart s) = admin_ok s"
    by (simp add: ensure_cart_def split: option.splits)
  show ?thesis
  proof (cases ev)
    case View
    then show ?thesis by (simp add: page_order_def e)
  next
    case (Add_to_cart m qty)
    then show ?thesis by (simp add: page_order_def e Let_def split: option.splits)
  next
    case Clear_cart
    then show ?thesis by (simp add: page_order_def e reset_cart_def Let_def)
  next
    case (Place_order c t k n)
    then show ?thesis by (simp add: page_order_def place_order_admin_ok e)
  qed
qed

lemma page_order_no_password_notice:
  "fst (page_order e ev db s) \<noteq> Inr Password_required"
proof (cases ev)
  case View
  then show ?thesis by (simp add: page_order_def)
next
  case (Add_to_cart m qty)
  then show ?thesis by (simp add: page_order_def Let_def split: option.splits)
next
  case Clear_cart
  then show ?thesis by (simp add: page_order_def Let_def)
next
  case (Place_order c t k n)
  then show ?thesis
    by (simp add: page_order_def place_order_def Let_def split: sum.splits prod.splits)
qed

lemma require_admin_pass:
  "admin_ok s = Some True \<Longrightarrow> require_admin cfg pw False s = (True, s)"
  by (simp add: require_admin_def)

lemma main_keeps_flag:
  assumes "admin_ok s = Some True" and "\<not> gate_ok req"
  shows "admin_ok (snd (snd (main cfg e req db s))) = Some True"
proof (cases "page_req req")
  case (Customer ev)
  with assms show ?thesis by (simp add: main_def Let_def page_order_admin_ok)
next
  case (Orders_admin f ev)
  with assms show ?thesis
    by (simp add: main_def Let_def require_admin_pass split: prod.splits)
next
  case (Menu_admin ev)
  with assms show ?thesis
    by (simp add: main_def Let_def require_admin_pass split: prod.splits)
next
  case (Qr_admin b p m ev)
  with assms show ?thesis
    by (simp add: main_def Let_def require_admin_pass)
qed

lemma page_orders_admin_no_password_notice:
  "fst (page_orders_admin like_op e f ev db) \<noteq> Password_required"
  by (cases ev) (simp_all add: page_orders_admin_def Let_def)

lemma import_section_no_password_notice:
  "fst (import_section up db) \<noteq> Inr Password_required"
  by (simp add: import_section_def split: option.splits prod.splits)

lemma rest_of_page_no_password_notice:
  "fst (rest_of_page sel up db) \<noteq> Inr Password_required"
  by (simp add: rest_of_page_def import_section_no_password_notice split: option.splits)

lemma page_menu_admin_no_password_notice:
  "fst (page_menu_admin ev db) \<noteq> Inr Password_required"
proof (cases ev)
  case (Show_menu sel up)
  then show ?thesis by (simp add: page_menu_admin_def rest_of_page_no_password_notice)
next
  case (Add_item n c p d img avail sel up)
  obtain r db' where r: "rest_of_page sel up db = (r, db')" by (cases "rest_of_page sel up db")
  with rest_of_page_no_password_notice[of sel up db] have "r \<noteq> Inr Password_required" by simp
  with Add_item r show ?thesis
    by (auto simp: page_menu_admin_def split: sum.splits notice.splits)
next
  case (Save_item mid n c p d img avail)
  then show ?thesis by (simp add: page_menu_admin_def split: option.splits)
next
  case (Delete_item mid)
  then show ?thesis by (simp add: page_menu_admin_def split: option.splits)
qed

lemma page_qr_no_password_notice:
  "page_qr cfg b p m ev \<noteq> Password_required"
  by (cases ev) (simp_all add: page_qr_def)

lemma main_passes_gate:
  assumes "admin_ok s = Some True" and "\<not> gate_ok req"
  shows "fst (main cfg e req db s) \<noteq> Inr Password_required"
proof (cases "page_req req")
  case (Customer ev)
  then show ?thesis by (simp add: main_def Let_def page_order_no_password_notice)
next
  case (Orders_admin f ev)
  with assms page_orders_admin_no_password_notice[of "ilike cfg" e f ev "init_db cfg db"]
  show ?thesis
    by (auto simp: main_def Let_def require_admin_pass split: prod.splits)
next
  case (Menu_admin ev)
  with assms page_menu_admin_no_password_notice[of ev "init_db cfg db"]
  show ?thesis
    by (auto simp: main_def Let_def require_admin_pass split: prod.splits)
next
  case (Qr_admin b p m ev)
  with assms show ?thesis
    by (simp add: main_def Let_def require_admin_pass page_qr_no_password_notice)
qed

lemma run_session_keeps_flag:
  "admin_ok s = Some True \<Longrightarrow> \<forall>(e, req)\<in>set reqs. \<not> gate_ok req \<Longrightarrow>
   admin_ok (snd (run_session cfg reqs db s)) = Some True"
proof (induction reqs arbitrary: db s)
  case Nil
  then show ?case by simp
next
  case (Cons a reqs)
  obtain e req where a: "a = (e, req)" by (cases a)
  obtain r db' s' where m: "main cfg e req db s = (r, db', s')" by (cases "main cfg e req db s")
  from Cons.prems a have g: "\<not> gate_ok req" by simp
  from main_keeps_flag[OF Cons.prems(1) g, of cfg e db] m have "admin_ok s' = Some True" by simp
  moreover from Cons.prems have "\<forall>(e, req)\<in>set reqs. \<not> gate_ok req" by simp
  ultimately have "admin_ok (snd (run_session cfg reqs db' s')) = Some True"
    by (rule Cons.IH)
  with a m show ?case by simp
qed

text \<open>
  Claim C8. Pressing the gate button with the configured password sets the flag of
  the session to true and the gate returns true; pressing it with any other text sets
  the flag to false and the gate returns false; without the button the flag is left
  as it is and the gate returns it (false when unset). Once the flag is true, every
  later run of the script in the session that does not press the button, whatever page
  and input it has, leaves it true, and no such run is turned away by the gate.
\<close>

theorem admin_gate_sets_and_keeps_flag:
  fixes cfg :: "'p::{zero,plus,times,ord} config"
  shows "(pw = ADMIN_PASSWORD cfg \<longrightarrow>
            require_admin cfg pw True s = (True, s\<lparr>admin_ok := Some True\<rparr>))
       \<and> (pw \<noteq> ADMIN_PASSWORD cfg \<longrightarrow>
            require_admin cfg pw True s = (False, s\<lparr>admin_ok := Some False\<rparr>))
       \<and> require_admin cfg pw False s = (case admin_ok s of None \<Rightarrow> False | Some b \<Rightarrow> b, s)
       \<and> (admin_ok s = Some True \<and> \<not> gate_ok req \<longrightarrow>
            admin_ok (snd (snd (main cfg e req db s))) = Some True
          \<and> fst (main cfg e req db s) \<noteq> Inr Password_required)
       \<and> (admin_ok s = Some True \<and> (\<forall>(e, req)\<in>set reqs. \<not> gate_ok req) \<longrightarrow>
            admin_ok (snd (run_session cfg reqs db s)) = Some True)"
proof (intro conjI impI)
  assume "pw = ADMIN_PASSWORD cfg"
  then show "require_admin cfg pw True s = (True, s\<lparr>admin_ok := Some True\<rparr>)"
    by (simp add: require_admin_def)
next
  assume "pw \<noteq> ADMIN_PASSWORD cfg"
  then show "require_admin cfg pw True s = (False, s\<lparr>admin_ok := Some False\<rparr>)"
    by (simp add: require_admin_def)
next
  show "require_admin cfg pw False s = (case admin_ok s of None \<Rightarrow> False | Some b \<Rightarrow> b, s)"
    by (simp add: require_admin_def)
next
  assume "admin_ok s = Some True \<and> \<not> gate_ok req"
  then show "admin_ok (snd (snd (main cfg e req db s))) = Some True"
    by (simp add: main_keeps_flag)
next
  assume "admin_ok s = Some True \<and> \<not> gate_ok req"
  then show "fst (main cfg e req db s) \<noteq> Inr Password_required"
    by (simp add: main_passes_gate)
next
  assume "admin_ok s = Some True \<and> (\<forall>(e, req)\<in>set reqs. \<not> gate_ok req)"
  then show "admin_ok (snd (run_session cfg reqs db s)) = Some True"
    by (simp add: run_session_keeps_flag)
qed

theorem admin_gate_sets_and_keeps_flag_witness:
  "require_admin ex_cfg ''changeme'' True (ex_session [])
     = (True, \<lparr>cart = Some [], admin_ok = Some True\<rparr>)
   \<and> require_admin ex_cfg ''guess'' True (ex_session [])
     = (False, \<lparr>cart = Some [], admin_ok = Some False\<rparr>)
   \<and> list_all (\<lambda>(e, req). \<not> gate_ok req)
        [ex_request False [] (Customer (Add_to_cart 1 2)),
         ex_request False [] (Menu_admin (Delete_item 2)),
         ex_request False [] (Customer ex_submit)]
   \<and> admin_ok (snd (run_session ex_cfg
        [ex_request False [] (Customer (Add_to_cart 1 2)),
         ex_request False [] (Menu_admin (Delete_item 2)),
         ex_request False [] (Customer ex_submit)]
        ex_db \<lparr>cart = Some [], admin_ok = Some True\<rparr>)) = Some True"
proof -
  let ?reqs = "[ex_request False [] (Customer (Add_to_cart 1 2)),
         ex_request False [] (Menu_admin (Delete_item 2)),
         ex_request False [] (Customer ex_submit)]"
  let ?s = "\<lparr>cart = Some [], admin_ok = Some True\<rparr>"
  have a: "ADMIN_PASSWORD ex_cfg = ''changeme''" by (simp add: ex_cfg_def)
  have h1: "admin_ok ?s = Some True" by simp
  have h2: "\<forall>(e, req)\<in>set ?reqs. \<not> gate_ok req" by (simp add: ex_request_def)
  have h2': "list_all (\<lambda>(e, req). \<not> gate_ok req) ?reqs" by (simp add: ex_request_def)
  note g = admin_gate_sets_and_keeps_flag[where cfg = ex_cfg and s = "ex_session []"]
  from g[where pw = "''changeme''"] a
  have r1: "require_admin ex_cfg ''changeme'' True (ex_session [])
     = (True, \<lparr>cart = Some [], admin_ok = Some True\<rparr>)"
    by (simp add: ex_session_def)
  from g[where pw = "''guess''"] a
  have r2: "require_admin ex_cfg ''guess'' True (ex_session [])
     = (False, \<lparr>cart = Some [], admin_ok = Some False\<rparr>)"
    by (simp add: ex_session_def)
  from admin_gate_sets_and_keeps_flag[where cfg = ex_cfg and s = ?s and reqs = ?reqs and db = ex_db] h1 h2
  have r3: "admin_ok (snd (run_session ex_cfg ?reqs ex_db ?s)) = Some True"
    by blast
  from r1 r2 h2' r3 show ?thesis by simp
qed

section \<open>Deleting a menu entry\<close>

text \<open>
  Claim C9. Deleting a menu entry on the menu administration page changes no order and
  deletes no order line: line by line the order lines after the deletion are those
  before it, with the same key, order, captured name, captured unit price and
  quantity; the reference to the menu entry is unchanged, or it pointed to the deleted
  entry and is now empty.
\<close>

theorem menu_deletion_keeps_order_lines:
  fixes db :: "'p::{zero,ord} database"
  shows "case page_menu_admin (Delete_item mid) db of
     (n, db') \<Rightarrow>
       orders db' = orders db
     \<and> map oi_id (order_items db') = map oi_id (order_items db)
     \<and> map order_id (order_items db') = map order_id (order_items db)
     \<and> map item_name (order_items db') = map item_name (order_items db)
     \<and> map unit_price (order_items db') = map unit_price (order_items db)
     \<and> map quantity (order_items db') = map quantity (order_items db)
     \<and> list_all2 (\<lambda>l l'. l' = l \<or> (item_id l = Some mid \<and> l' = l\<lparr>item_id := None\<rparr>))
          (order_items db) (order_items db')"
proof -
  have same: "list_all2 (\<lambda>l l'. l' = l \<or> (item_id l = Some mid \<and> l' = l\<lparr>item_id := None\<rparr>)) xs xs"
    for xs :: "'p OrderItem list"
    by (induction xs) simp_all
  have nulled: "list_all2 (\<lambda>l l'. l' = l \<or> (item_id l = Some mid \<and> l' = l\<lparr>item_id := None\<rparr>))
          xs (map (\<lambda>l. if item_id l = Some mid then l\<lparr>item_id := None\<rparr> else l) xs)"
    for xs :: "'p OrderItem list"
    by (induction xs) simp_all
  show ?thesis
  proof (cases "get_MenuItem db mid")
    case None
    with same show ?thesis by (simp add: page_menu_admin_def)
  next
    case (Some row)
    show ?thesis
    proof (cases "price row < 0")
      case True
      with Some same show ?thesis by (simp add: page_menu_admin_def)
    next
      case False
      with Some nulled show ?thesis
        by (simp add: page_menu_admin_def delete_MenuItem_def comp_def)
    qed
  qed
qed

theorem menu_deletion_keeps_order_lines_witness:
  "get_MenuItem ex_db_ordered 1 \<noteq> None
   \<and> get_MenuItem (snd (page_menu_admin (Delete_item 1) ex_db_ordered)) 1 = None
   \<and> order_items (snd (page_menu_admin (Delete_item 1) ex_db_ordered))
       = [\<lparr>oi_id = 1, order_id = 1, item_id = None, item_name = ''EntryA'',
           unit_price = 10, quantity = 2\<rparr>,
          \<lparr>oi_id = 2, order_id = 1, item_id = Some 2, item_name = ''EntryB'',
           unit_price = 5, quantity = 1\<rparr>]
   \<and> map item_name (order_items (snd (page_menu_admin (Delete_item 1) ex_db_ordered)))
       = map item_name (order_items ex_db_ordered)
   \<and> map unit_price (order_items (snd (page_menu_admin (Delete_item 1) ex_db_ordered)))
       = map unit_price (order_items ex_db_ordered)"
proof -
  have ev: "order_items (snd (page_menu_admin (Delete_item 1) ex_db_ordered))
       = [\<lparr>oi_id = 1, order_id = 1, item_id = None, item_name = ''EntryA'',
           unit_price = 10, quantity = 2\<rparr>,
          \<lparr>oi_id = 2, order_id = 1, item_id = Some 2, item_name = ''EntryB'',
           unit_price = 5, quantity = 1\<rparr>]"
    by (simp add: page_menu_admin_def delete_MenuItem_def get_MenuItem_def ex_db_ordered_def ex_menu_def)
  have g1: "get_MenuItem ex_db_ordered 1 \<noteq> None"
    by (simp add: get_MenuItem_def ex_db_ordered_def ex_menu_def)
  have g2: "get_MenuItem (snd (page_menu_admin (Delete_item 1) ex_db_ordered)) 1 = None"
    by (simp add: get_MenuItem_def page_menu_admin_def delete_MenuItem_def ex_db_ordered_def ex_menu_def)
  from menu_deletion_keeps_order_lines[where mid = 1 and db = ex_db_ordered]
  have "map item_name (order_items (snd (page_menu_admin (Delete_item 1) ex_db_ordered)))
       = map item_name (order_items ex_db_ordered)
     \<and> map unit_price (order_items (snd (page_menu_admin (Delete_item 1) ex_db_ordered)))
       = map unit_price (order_items ex_db_ordered)"
    by (simp add: case_prod_unfold)
  with ev g1 g2 show ?thesis by simp
qed

section \<open>A session that reaches a store with a row of negative price in the cart\<close>

text \<open>
  A cart that holds a row of negative price that is not available arises in a session
  of the application, and its totals are those of the example store \<open>ex_db\<close>: the
  displayed and the stored total are both 0.
\<close>

lemma negative_unavailable_row_in_cart_is_reachable:
  "run_session ex_cfg ex_requests ex_db_before (ex_session [])
     = (ex_db_reached, \<lparr>cart = Some [(3, 1), (4, 1)], admin_ok = Some True\<rparr>)"
  by (simp add: ex_requests_def ex_request_def ex_file_def ex_db_before_def ex_db_reached_def
      ex_cfg_def ex_defs main_def init_db_def require_admin_def page_menu_admin_def
      rest_of_page_def import_section_def add_MenuItem_def delete_MenuItem_def lower_ascii_def
      strip_defs run_defs)

lemma totals_in_reached_store:
  "cart_total of_int ex_db_reached \<lparr>cart = Some [(3, 1), (4, 1)], admin_ok = Some True\<rparr> = 0
   \<and> total_price (last (orders (fst (snd
        (page_order ex_env ex_submit ex_db_reached
           \<lparr>cart = Some [(3, 1), (4, 1)], admin_ok = Some True\<rparr>))))) = 0"
  by (simp add: ex_db_reached_def ex_defs run_defs cart_total_def strip_defs)

section \<open>Quantities in the cart\<close>

text \<open>
  The ordering page keeps every quantity of the cart between 1 and 50.
\<close>

lemma cart_set_quantities:
  "\<forall>(m, q)\<in>set c. 0 < q \<and> q \<le> 50 \<Longrightarrow> 0 < v \<Longrightarrow> v \<le> 50 \<Longrightarrow>
   \<forall>(m, q)\<in>set (cart_set k v c). 0 < q \<and> q \<le> 50"
  by (induction c) (auto split: if_splits)

lemma place_order_cart:
  "the_cart (snd (snd (place_order e c t k n db s))) = the_cart s
   \<or> the_cart (snd (snd (place_order e c t k n db s))) = []"
  by (simp add: place_order_def Let_def reset_cart_def the_cart_def split: sum.splits prod.splits)

lemma page_order_quantities:
  assumes "\<forall>(m, q)\<in>set (the_cart s). 0 < q \<and> q \<le> 50"
  shows "\<forall>(m, q)\<in>set (the_cart (snd (snd (page_order e ev db s)))). 0 < q \<and> q \<le> 50"
proof (cases ev)
  case View
  with assms show ?thesis by (simp add: page_order_def)
next
  case (Add_to_cart m qty)
  show ?thesis
  proof (cases "get_MenuItem db m")
    case None
    with assms Add_to_cart show ?thesis by (simp add: page_order_def)
  next
    case (Some item)
    show ?thesis
    proof (cases "\<not> is_available item \<or> qty < 0 \<or> 50 < qty \<or> qty \<le> 0")
      case True
      with assms Add_to_cart Some show ?thesis by (auto simp: page_order_def Let_def)
    next
      case False
      then have q: "0 < qty" "qty \<le> 50" by auto
      have "the_cart (s\<lparr>cart := Some x\<rparr>) = x" for x and s :: session_state
        by (simp add: the_cart_def)
      with cart_set_quantities[OF assms q, of m] False Add_to_cart Some show ?thesis
        by (simp add: page_order_def Let_def)
    qed
  qed
next
  case Clear_cart
  have "the_cart (reset_cart x) = []" for x by (simp add: reset_cart_def the_cart_def)
  with assms Clear_cart show ?thesis by (simp add: page_order_def Let_def)
next
  case (Place_order c t k n)
  with assms place_order_cart[of e c t k n db "ensure_cart s"] show ?thesis
    by (auto simp: page_order_def)
qed

end
